theory Spec2Isabelle
  imports Main
begin

section \<open>Strings\<close>

text \<open>
  A JavaScript string is modelled as a \<^typ>\<open>string\<close>: a list of code units below 256
  (the Latin-1 range).  The three built-ins the widget calls on strings are written out:
  \<open>String.prototype.includes\<close>, \<open>toLowerCase\<close> and \<open>trim\<close>.
\<close>

fun startsWith :: "string \<Rightarrow> string \<Rightarrow> bool" where
  "startsWith s [] = True"
| "startsWith [] (c # t) = False"
| "startsWith (d # s) (c # t) = (d = c \<and> startsWith s t)"

fun includes_str :: "string \<Rightarrow> string \<Rightarrow> bool" where
  "includes_str [] t = startsWith [] t"
| "includes_str (d # s) t = (startsWith (d # s) t \<or> includes_str s t)"

definition toLowerChar :: "char \<Rightarrow> char" where
  "toLowerChar c =
     (let n = (of_char c :: nat) in
      if (65 \<le> n \<and> n \<le> 90) \<or> (192 \<le> n \<and> n \<le> 222 \<and> n \<noteq> 215)
      then char_of (n + 32) else c)"

definition toLowerCase :: "string \<Rightarrow> string" where
  "toLowerCase s = map toLowerChar s"

definition isWhiteSpace :: "char \<Rightarrow> bool" where
  "isWhiteSpace c = ((of_char c :: nat) \<in> {9, 10, 11, 12, 13, 32, 160})"

definition trim :: "string \<Rightarrow> string" where
  "trim s = rev (dropWhile isWhiteSpace (rev (dropWhile isWhiteSpace s)))"

section \<open>Chart-intent detection\<close>

text \<open>\<open>detectChartRequest\<close> of \<open>chat-widget.js\<close>: the two constant lists, in source order.\<close>

definition chartKeywords :: "string list" where
  "chartKeywords =
    [''chart'', ''graph'', ''plot'', ''visualization'', ''visualize'', ''visual'',
     ''bar chart'', ''line chart'', ''pie chart'', ''scatter plot'', ''histogram'',
     ''area chart'', ''donut chart'', ''bubble chart'',
     ''show'', ''display'', ''create'', ''generate'', ''draw'', ''make'', ''build'',
     ''show me a chart'', ''create a graph'', ''generate visualization'',
     ''display chart'', ''make a plot'', ''draw a graph'', ''build a chart'',
     ''show visualization'', ''create visualization'', ''display graph'',
     ''show graph'', ''make graph'', ''generate chart'', ''generate graph'',
     ''trend'', ''trending'', ''pattern'', ''growth'', ''comparison'', ''compare'',
     ''over time'', ''by month'', ''by year'', ''by quarter'', ''distribution'']"

definition phrases :: "string list" where
  "phrases =
    [''show me a chart'', ''create a graph'', ''generate visualization'',
     ''display chart'', ''make a plot'', ''draw a graph'', ''build a chart'',
     ''show visualization'', ''create visualization'', ''display graph'',
     ''show graph'', ''make graph'', ''generate chart'', ''generate graph'',
     ''bar chart'', ''line chart'', ''pie chart'', ''scatter plot'',
     ''area chart'', ''donut chart'', ''bubble chart'', ''over time'']"

definition chartRelated :: "string list" where
  "chartRelated =
    [''chart'', ''graph'', ''plot'', ''visualization'', ''visual'', ''trend'', ''pattern'']"

text \<open>The test \<open>keyword === 'show' || ... || keyword === 'make'\<close> of the keyword loop.\<close>

definition isGenericVerb :: "string \<Rightarrow> bool" where
  "isGenericVerb keyword =
     (keyword = ''show'' \<or> keyword = ''display'' \<or> keyword = ''create'' \<or>
      keyword = ''generate'' \<or> keyword = ''make'')"

text \<open>\<open>chartRelated.some(term => queryLower.includes(term))\<close>.\<close>

definition hasChartContext :: "string \<Rightarrow> bool" where
  "hasChartContext queryLower = list_ex (\<lambda>t. includes_str queryLower t) chartRelated"

text \<open>The loop \<open>for (const phrase of phrases)\<close>: it returns at the first phrase found.\<close>

fun phraseLoop :: "string \<Rightarrow> string list \<Rightarrow> bool" where
  "phraseLoop queryLower [] = False"
| "phraseLoop queryLower (phrase # rest) =
     (if includes_str queryLower phrase then True else phraseLoop queryLower rest)"

text \<open>
  The loop \<open>for (const keyword of chartKeywords)\<close>: a generic verb that is found
  returns only with chart context and lets the loop go on otherwise; any other keyword
  that is found returns at once.
\<close>

fun keywordLoop :: "string \<Rightarrow> string list \<Rightarrow> bool" where
  "keywordLoop queryLower [] = False"
| "keywordLoop queryLower (keyword # rest) =
     (if includes_str queryLower keyword then
        (if isGenericVerb keyword then
           (if hasChartContext queryLower then True else keywordLoop queryLower rest)
         else True)
      else keywordLoop queryLower rest)"

definition detectChartRequest :: "string \<Rightarrow> bool" where
  "detectChartRequest query =
     (let queryLower = toLowerCase query in
      if phraseLoop queryLower phrases then True
      else keywordLoop queryLower chartKeywords)"

section \<open>JSON values and message bubbles\<close>

text \<open>
  A value taken from a parsed response body where the widget expects a string: a string,
  or any other JSON value, kept by what the widget reads of it (whether it is truthy,
  and the text that \<open>JSON.stringify(value, null, 2)\<close> gives).
\<close>

datatype js_value = JString string | JOther bool string

text \<open>
  The content that \<open>createMessageBubble\<close> gives a bubble: text set through
  \<open>innerText\<close>, markup set through \<open>innerHTML\<close>, or a \<open>pre\<close>/\<open>code\<close> block holding
  the JSON text of a value that is not a string.
\<close>

datatype bubble_content = InnerText string | InnerHTML string | JsonBlock string

definition fence :: string where
  "fence = [CHR 0x60, CHR 0x60, CHR 0x60]"

text \<open>The text before the first fence and the text after it, if there is a fence.\<close>

fun splitAtFence :: "string \<Rightarrow> (string \<times> string) option" where
  "splitAtFence [] = None"
| "splitAtFence (c # s) =
     (if startsWith (c # s) fence then Some ([], drop 3 (c # s))
      else (case splitAtFence s of
              None \<Rightarrow> None
            | Some (before, rest) \<Rightarrow> Some (c # before, rest)))"

lemma splitAtFence_shorter:
  "splitAtFence s = Some (before, rest) \<Longrightarrow> length rest < length s"
proof (induction s arbitrary: before rest)
  case Nil
  then show ?case by simp
next
  case (Cons c s)
  show ?case
  proof (cases "startsWith (c # s) fence")
    case True
    with Cons.prems show ?thesis by auto
  next
    case False
    with Cons.prems obtain b where "splitAtFence s = Some (b, rest)"
      by (auto split: option.splits)
    then have "length rest < length s" by (rule Cons.IH)
    then show ?thesis by simp
  qed
qed

text \<open>
  The markup for one odd part of \<open>message.split(/```([\s\S]*?)```/)\<close>: the first line
  of the trimmed part is taken as a language name and cut off.
\<close>

definition codeBlock :: "string \<Rightarrow> string" where
  "codeBlock part =
     (let codeContent = trim part;
          language = trim (takeWhile (\<lambda>c. c \<noteq> CHR 0x0A) codeContent);
          code = (if language \<noteq> [] then trim (drop (length language) codeContent)
                  else codeContent)
      in ''<pre class='' @ [CHR 0x22] @ ''ai-chat-widget-code-block'' @ [CHR 0x22] @
         ''><code>'' @ code @ ''</code></pre>'')"

text \<open>
  \<open>formattedMessage\<close>: the parts outside a pair of fences as they are, the parts inside
  as code blocks; with no closing fence left the rest stays as it is.
\<close>

function formatMessage :: "string \<Rightarrow> string" where
  "formatMessage m =
     (case splitAtFence m of
        None \<Rightarrow> m
      | Some (before, rest) \<Rightarrow>
          (case splitAtFence rest of
             None \<Rightarrow> m
           | Some (code, after) \<Rightarrow> before @ codeBlock code @ formatMessage after))"
  by pat_completeness auto

termination formatMessage
proof (relation "measure length")
  show "wf (measure length)" by simp
next
  fix m :: string and x2 before rest x2a code after
  assume "splitAtFence m = Some x2" "(before, rest) = x2"
    "splitAtFence rest = Some x2a" "(code, after) = x2a"
  then have "length rest < length m" "length after < length rest"
    using splitAtFence_shorter by metis+
  then show "(after, m) \<in> measure length" by simp
qed

definition createMessageBubble :: "js_value \<Rightarrow> bubble_content" where
  "createMessageBubble message =
     (case message of
        JOther t json \<Rightarrow> JsonBlock json
      | JString m \<Rightarrow>
          if includes_str m fence then InnerHTML (formatMessage m) else InnerText m)"

text \<open>
  Reading \<open>innerText\<close> of a bubble.  Text set through \<open>innerText\<close> reads back as it
  was set, and the JSON block as its text.  For markup the text is what the browser
  makes of it: \<open>htmlText\<close>, a parameter of everything that reads a bubble.
\<close>

definition readInnerText :: "(string \<Rightarrow> string) \<Rightarrow> bubble_content \<Rightarrow> string" where
  "readInnerText htmlText b =
     (case b of InnerText t \<Rightarrow> t | InnerHTML h \<Rightarrow> htmlText h | JsonBlock json \<Rightarrow> json)"

section \<open>Widget state\<close>

text \<open>
  The module-level variables of \<open>chat-widget.js\<close> and the part of the DOM they refer to.
  A DOM element held in a variable is a reference; the model keeps the user message
  containers in a list and lets a reference be the index of its container.  Each user
  container holds exactly one bubble (\<open>.ai-chat-widget-message\<close>), so the bubble and
  its container share the index.  The elements that \<open>initChatWidget\<close> looks up (the
  input field, the send button, the message area) are taken to exist.

  Beside the variables of the source the state records what the platform holds for the
  widget: the controllers created so far and those on which \<open>abort()\<close> was called, the
  asynchronous calls that are suspended at an \<open>await\<close>, and the request ids for which
  insights polling was started.
\<close>

record turn =
  role :: string
  content :: js_value

text \<open>
  A user message container: its bubble's content, \<open>contentEditable\<close>, the class
  \<open>is-editing\<close>, whether \<open>onEditableBubbleKeydown\<close> listens on the bubble, and the
  action row with its copy and edit buttons.
\<close>

record user_container =
  bubble :: bubble_content
  contentEditable :: bool
  isEditing :: bool
  keydownListener :: bool
  hasActions :: bool
  hasCopyButton :: bool
  hasEditButton :: bool

type_synonym row = "(string \<times> string) list"
type_synonym chart = string

datatype group_item =
    MessageBubble bubble_content
  | IntroMessageBubble bubble_content
  | TableBubble "row list"
  | ChartBubble chart "row list"
  | InsightsPending string
  | TableContainer "row list"
  | Avatar

datatype dom_node =
    UserContainer nat
  | AiMessage bubble_content
  | AiGroup "group_item list"
  | LoadingIndicator

text \<open>A thrown value, as far as the \<open>catch\<close> blocks read it: \<open>name\<close>, \<open>code\<close>, and the message.\<close>

record js_error =
  errName :: string
  errCode :: "nat option"
  errMessage :: string

text \<open>
  A call of \<open>sendMessage\<close> or \<open>startRequest\<close> suspended at an \<open>await\<close>: what it
  captured (\<open>query\<close>, \<open>isChartRequest\<close>, \<open>shouldShowCharts\<close>), the body it passed to
  \<open>fetch\<close> (serialised at the call, so the history is a snapshot), the controller
  whose signal it passed, and where it waits.
\<close>

datatype origin = FromInput | FromEdit

datatype phase = AwaitingFetch | AwaitingBody bool

record request =
  reqId :: nat
  origin :: origin
  query :: string
  sentHistory :: "turn list"
  showCharts :: bool
  isChartRequest :: bool
  signal :: nat
  phase :: phase

record widget =
  isProcessing :: bool
  currentAbortController :: "nat option"
  lastUserMessageContainer :: "nat option"
  activeEditableBubble :: "nat option"
  conversationHistory :: "turn list"
  showChartVisualization :: bool
  inputValue :: string
  sendButtonText :: string
  sendButtonDataState :: "string option"
  messageArea :: "dom_node list"
  containers :: "user_container list"
  abortedSignals :: "nat list"
  controllersCreated :: nat
  inflight :: "request list"
  requestsIssued :: nat
  pollsStarted :: "string list"

definition initWidget :: widget where
  "initWidget =
     \<lparr>isProcessing = False, currentAbortController = None,
      lastUserMessageContainer = None, activeEditableBubble = None,
      conversationHistory = [], showChartVisualization = False,
      inputValue = [], sendButtonText = ''Send'', sendButtonDataState = None,
      messageArea = [], containers = [], abortedSignals = [], controllersCreated = 0,
      inflight = [], requestsIssued = 0, pollsStarted = []\<rparr>"

section \<open>Synchronous functions of the widget\<close>

definition setProcessingState :: "bool \<Rightarrow> widget \<Rightarrow> widget" where
  "setProcessingState processing s =
     s\<lparr>isProcessing := processing,
       sendButtonText := (if processing then ''Stop'' else ''Send''),
       sendButtonDataState := (if processing then Some ''processing'' else None)\<rparr>"

text \<open>
  \<open>displayLoading\<close>: \<open>querySelector\<close> finds the first loading element and removes it;
  a new one is appended when \<open>isLoading\<close>.
\<close>

definition displayLoading :: "bool \<Rightarrow> widget \<Rightarrow> widget" where
  "displayLoading isLoading s =
     s\<lparr>messageArea := remove1 LoadingIndicator (messageArea s) @
                        (if isLoading then [LoadingIndicator] else [])\<rparr>"

definition updContainer :: "nat \<Rightarrow> (user_container \<Rightarrow> user_container) \<Rightarrow> widget \<Rightarrow> widget" where
  "updContainer cid f s = s\<lparr>containers := (containers s)[cid := f (containers s ! cid)]\<rparr>"

definition ensureUserActions :: "user_container \<Rightarrow> user_container" where
  "ensureUserActions c = c\<lparr>hasActions := True, hasCopyButton := True\<rparr>"

definition addEditButton :: "user_container \<Rightarrow> user_container" where
  "addEditButton c = (if \<not> hasActions c then c else c\<lparr>hasEditButton := True\<rparr>)"

definition makeMessageEditable :: "nat \<Rightarrow> widget \<Rightarrow> widget" where
  "makeMessageEditable cid s = updContainer cid (addEditButton \<circ> ensureUserActions) s"

definition enableEditing :: "nat \<Rightarrow> widget \<Rightarrow> widget" where
  "enableEditing cid s =
     (updContainer cid
        (\<lambda>c. c\<lparr>contentEditable := True, isEditing := True, keydownListener := True\<rparr>) s)
     \<lparr>activeEditableBubble := Some cid\<rparr>"

definition removeEditToolbar :: "nat option \<Rightarrow> widget \<Rightarrow> widget" where
  "removeEditToolbar container s =
     (case container of
        None \<Rightarrow> s
      | Some cid \<Rightarrow>
          updContainer cid
            (\<lambda>c. c\<lparr>keydownListener := False, isEditing := False, hasEditButton := False\<rparr>) s)"

text \<open>
  \<open>displayMessage(message, type)\<close>: for \<open>'user'\<close> it builds the container, appends it,
  pushes the turn to the history and returns the container; for any other type it only
  appends a bubble with an avatar.  Either bubble is the one \<open>createMessageBubble\<close>
  builds from the message.
\<close>

definition newUserContainer :: "string \<Rightarrow> user_container" where
  "newUserContainer message =
     ensureUserActions
       \<lparr>bubble = createMessageBubble (JString message), contentEditable = False,
        isEditing = False,
        keydownListener = False, hasActions = False, hasCopyButton = False,
        hasEditButton = False\<rparr>"

definition displayMessageUser :: "string \<Rightarrow> widget \<Rightarrow> widget" where
  "displayMessageUser message s =
     s\<lparr>containers := containers s @ [newUserContainer message],
       messageArea := messageArea s @ [UserContainer (length (containers s))],
       conversationHistory :=
         conversationHistory s @ [\<lparr>role = ''user'', content = JString message\<rparr>]\<rparr>"

definition displayMessageAi :: "js_value \<Rightarrow> widget \<Rightarrow> widget" where
  "displayMessageAi message s =
     s\<lparr>messageArea := messageArea s @ [AiMessage (createMessageBubble message)]\<rparr>"

text \<open>
  The synchronous part of a request, from \<open>displayLoading(true)\<close> to the call of
  \<open>fetch\<close>: a new \<open>AbortController\<close> becomes the current one and the call is suspended
  at \<open>await fetch(...)\<close>.
\<close>

definition dispatch :: "origin \<Rightarrow> string \<Rightarrow> widget \<Rightarrow> widget" where
  "dispatch org q s0 =
     (let isChart = detectChartRequest q;
          shouldShowCharts = (showChartVisualization s0 \<or> isChart);
          s1 = setProcessingState True (displayLoading True s0);
          ctl = controllersCreated s1;
          s2 = s1\<lparr>currentAbortController := Some ctl, controllersCreated := ctl + 1\<rparr>
      in s2\<lparr>inflight := inflight s2 @
                [\<lparr>reqId = requestsIssued s2, origin = org, query = q,
                  sentHistory = conversationHistory s2, showCharts = shouldShowCharts,
                  isChartRequest = isChart, signal = ctl, phase = AwaitingFetch\<rparr>],
             requestsIssued := requestsIssued s2 + 1\<rparr>)"

definition sendMessage :: "widget \<Rightarrow> widget" where
  "sendMessage s =
     (let q = trim (inputValue s) in
      if q = [] then s
      else
        let s1 = (displayMessageUser q s)
                   \<lparr>lastUserMessageContainer := Some (length (containers s))\<rparr>;
            s2 = s1\<lparr>inputValue := []\<rparr>
        in dispatch FromInput q s2)"

definition startRequest :: "string \<Rightarrow> widget \<Rightarrow> widget" where
  "startRequest q s = dispatch FromEdit q s"

definition popLastIfUser :: "turn list \<Rightarrow> turn list" where
  "popLastIfUser h = (if h \<noteq> [] \<and> role (last h) = ''user'' then butlast h else h)"

definition stopRequest :: "widget \<Rightarrow> widget" where
  "stopRequest s =
     (let s1 = (case currentAbortController s of
                  None \<Rightarrow> s
                | Some ctl \<Rightarrow> s\<lparr>abortedSignals := ctl # abortedSignals s\<rparr>);
          s2 = setProcessingState False (displayLoading False s1);
          s3 = s2\<lparr>conversationHistory := popLastIfUser (conversationHistory s2)\<rparr>
      in case lastUserMessageContainer s3 of
           None \<Rightarrow> s3
         | Some cid \<Rightarrow> makeMessageEditable cid s3)"

text \<open>
  The commit of an edit, shared word for word by \<open>handleSendButtonClick\<close> and
  \<open>onEditableBubbleKeydown\<close>: an edit that trims to nothing changes nothing.
\<close>

definition commitEdit :: "(string \<Rightarrow> string) \<Rightarrow> nat \<Rightarrow> widget \<Rightarrow> widget" where
  "commitEdit htmlText b s =
     (let edited = trim (readInnerText htmlText (bubble (containers s ! b))) in
      if edited = [] then s
      else
        let s1 = s\<lparr>conversationHistory :=
                     conversationHistory s @ [\<lparr>role = ''user'', content = JString edited\<rparr>]\<rparr>;
            s2 = removeEditToolbar (lastUserMessageContainer s1) s1;
            s3 = updContainer b (\<lambda>c. c\<lparr>contentEditable := False\<rparr>) s2;
            s4 = s3\<lparr>activeEditableBubble := None\<rparr>
        in startRequest edited s4)"

definition handleSendButtonClick :: "(string \<Rightarrow> string) \<Rightarrow> widget \<Rightarrow> widget" where
  "handleSendButtonClick htmlText s =
     (if isProcessing s then stopRequest s
      else case activeEditableBubble s of
             Some b \<Rightarrow> commitEdit htmlText b s
           | None \<Rightarrow> sendMessage s)"

definition onEditableBubbleKeydown ::
  "(string \<Rightarrow> string) \<Rightarrow> string \<Rightarrow> bool \<Rightarrow> widget \<Rightarrow> widget" where
  "onEditableBubbleKeydown htmlText key shiftKey s =
     (if key = ''Enter'' \<and> \<not> shiftKey then
        (case activeEditableBubble s of
           None \<Rightarrow> s
         | Some b \<Rightarrow> commitEdit htmlText b s)
      else s)"

text \<open>
  \<open>toggleChartVisualization\<close> flips the toggle; \<open>clearConversationHistory\<close> empties
  the history and replaces the content of the message area by the welcome message (the
  containers it detaches stay referenced by the variables that hold them).
\<close>

definition toggleChartVisualization :: "widget \<Rightarrow> widget" where
  "toggleChartVisualization s = s\<lparr>showChartVisualization := \<not> showChartVisualization s\<rparr>"

definition clearConversationHistory :: "widget \<Rightarrow> widget" where
  "clearConversationHistory s =
     s\<lparr>conversationHistory := [],
       messageArea :=
         [AiMessage (InnerText ''Welcome! How can I help you with your query today?'')]\<rparr>"

text \<open>The \<open>keydown\<close> listener that \<open>addEventListeners\<close> puts on the input field.\<close>

definition inputFieldKeydown :: "string \<Rightarrow> widget \<Rightarrow> widget" where
  "inputFieldKeydown key s =
     (if key = ''Enter'' then
        (if isProcessing s then s
         else if activeEditableBubble s = None then sendMessage s else s)
      else s)"

section \<open>Continuations of a request\<close>

text \<open>
  The JSON object a response body parses to, with the properties the widget reads; a
  property that is absent or \<open>null\<close> is \<open>None\<close>.  A string is truthy when it is not
  empty; \<open>chart\<close> is an object, truthy when present; \<open>request_id\<close> is a string.
\<close>

record json_body =
  detail :: "js_value option"
  conversation_history :: "turn list option"
  error :: "js_value option"
  question :: "js_value option"
  data :: "row list option"
  chart :: "chart option"
  request_id :: "string option"

definition truthyString :: "string option \<Rightarrow> bool" where
  "truthyString v = (case v of None \<Rightarrow> False | Some x \<Rightarrow> x \<noteq> [])"

definition truthy :: "js_value option \<Rightarrow> bool" where
  "truthy v =
     (case v of None \<Rightarrow> False | Some (JString x) \<Rightarrow> x \<noteq> [] | Some (JOther t json) \<Rightarrow> t)"

text \<open>\<open>v || dflt\<close>, with a string as the default.\<close>

definition orElse :: "js_value option \<Rightarrow> string \<Rightarrow> js_value" where
  "orElse v dflt = (if truthy v then the v else JString dflt)"

text \<open>\<open>v && v.length > 0\<close> on an array property.\<close>

definition nonEmptyArray :: "'a list option \<Rightarrow> bool" where
  "nonEmptyArray v = (case v of None \<Rightarrow> False | Some xs \<Rightarrow> xs \<noteq> [])"

definition apology :: js_value where
  "apology =
     JString ''Sorry, could not connect to the AI service. Please ensure the backend is running.''"

text \<open>\<open>error && (error.name === 'AbortError' || error.code === 20)\<close>.\<close>

definition aborted :: "js_error \<Rightarrow> bool" where
  "aborted e = (errName e = ''AbortError'' \<or> errCode e = Some 20)"

text \<open>The \<open>catch\<close> block of \<open>sendMessage\<close> and of \<open>startRequest\<close>.\<close>

definition catchHandler :: "js_error \<Rightarrow> widget \<Rightarrow> widget" where
  "catchHandler e s =
     (let s1 = setProcessingState False (displayLoading False s) in
      if aborted e then s1 else displayMessageAi apology s1)"

text \<open>The statements between \<open>await fetch(...)\<close> and the next \<open>await\<close>.\<close>

definition afterFetch :: "widget \<Rightarrow> widget" where
  "afterFetch s =
     (setProcessingState False (displayLoading False s))\<lparr>currentAbortController := None\<rparr>"

text \<open>The branch \<open>if (!response.ok)\<close>, once \<open>response.json()\<close> has given \<open>errorData\<close>.\<close>

definition afterErrorBody :: "json_body \<Rightarrow> widget \<Rightarrow> widget" where
  "afterErrorBody errorData s =
     (let msg = orElse (detail errorData) ''An unknown error occurred.'';
          s1 = displayMessageAi msg s
      in s1\<lparr>conversationHistory :=
               conversationHistory s1 @ [\<lparr>role = ''assistant'', content = msg\<rparr>]\<rparr>)"

text \<open>
  The rest of the \<open>try\<close> block, once \<open>response.json()\<close> has given \<open>result\<close>.
  \<open>sendMessage\<close> tests the \<open>shouldShowCharts\<close> it captured before the request;
  \<open>startRequest\<close> evaluates \<open>showChartVisualization || isChartRequest\<close> again here.
  With a \<open>request_id\<close> the chart branch starts the insights polling (see below).
\<close>

definition chartsWanted :: "request \<Rightarrow> widget \<Rightarrow> bool" where
  "chartsWanted r s =
     (case origin r of
        FromInput \<Rightarrow> showCharts r
      | FromEdit \<Rightarrow> showChartVisualization s \<or> isChartRequest r)"

definition afterResultBody :: "request \<Rightarrow> json_body \<Rightarrow> widget \<Rightarrow> widget" where
  "afterResultBody r result s =
     (let s1 = (if nonEmptyArray (conversation_history result)
                then s\<lparr>conversationHistory := the (conversation_history result)\<rparr>
                else s)
      in
      if truthy (error result) then
        s1\<lparr>conversationHistory := conversationHistory s1 @
              [\<lparr>role = ''assistant'',
                content = JString ''An error occurred. Please check the logs.''\<rparr>],
           messageArea := messageArea s1 @
              [AiGroup [MessageBubble (createMessageBubble (the (error result))), Avatar]]\<rparr>
      else if truthy (question result) then
        s1\<lparr>messageArea := messageArea s1 @
              [AiGroup [MessageBubble (createMessageBubble (the (question result))), Avatar]]\<rparr>
      else if nonEmptyArray (data result) then
        (if chart result \<noteq> None \<and> chartsWanted r s1 then
           (if truthyString (request_id result) then
              s1\<lparr>messageArea := messageArea s1 @
                    [AiGroup [IntroMessageBubble
                                (createMessageBubble
                                   (JString ''Here's a visualization of your data:'')),
                              ChartBubble (the (chart result)) (the (data result)),
                              InsightsPending (the (request_id result)),
                              TableContainer (the (data result)), Avatar]],
                 pollsStarted := pollsStarted s1 @ [the (request_id result)]\<rparr>
            else
              s1\<lparr>messageArea := messageArea s1 @
                    [AiGroup [IntroMessageBubble
                                (createMessageBubble
                                   (JString ''Here's a visualization of your data:'')),
                              ChartBubble (the (chart result)) (the (data result)),
                              TableContainer (the (data result)), Avatar]]\<rparr>)
         else
           s1\<lparr>messageArea := messageArea s1 @
                 [AiGroup [IntroMessageBubble
                             (createMessageBubble
                                (JString ''Here are the results for your query:'')),
                           TableBubble (the (data result)), Avatar]]\<rparr>)
      else
        s1\<lparr>messageArea := messageArea s1 @
              [AiGroup [MessageBubble
                          (createMessageBubble (JString ''No results found for your query.'')),
                        Avatar]]\<rparr>)"

section \<open>The browser: fetch, abort, events\<close>

text \<open>
  What the widget relies on from the platform.  \<open>fetch\<close> either resolves with a response
  (of which the widget reads \<open>ok\<close>) or rejects with some error: a \<open>TypeError\<close> on a
  network failure, and the \<open>AbortError\<close> \<open>DOMException\<close> (legacy code 20) when the
  signal it was given is aborted.  \<open>response.json()\<close> resolves with the parsed body or
  throws.
\<close>

definition abortError :: js_error where
  "abortError = \<lparr>errName = ''AbortError'', errCode = Some 20,
                  errMessage = ''signal is aborted without reason''\<rparr>"

definition typeError :: "string \<Rightarrow> js_error" where
  "typeError m = \<lparr>errName = ''TypeError'', errCode = None, errMessage = m\<rparr>"

datatype fetch_outcome = FetchResolved bool | FetchRejected js_error

datatype body_outcome = BodyParsed json_body | BodyThrows js_error

definition findRequest :: "nat \<Rightarrow> widget \<Rightarrow> request option" where
  "findRequest rid s = find (\<lambda>r. reqId r = rid) (inflight s)"

definition dropRequest :: "nat \<Rightarrow> widget \<Rightarrow> widget" where
  "dropRequest rid s = s\<lparr>inflight := filter (\<lambda>r. reqId r \<noteq> rid) (inflight s)\<rparr>"

definition setPhase :: "nat \<Rightarrow> phase \<Rightarrow> widget \<Rightarrow> widget" where
  "setPhase rid ph s =
     s\<lparr>inflight := map (\<lambda>r. if reqId r = rid then r\<lparr>phase := ph\<rparr> else r) (inflight s)\<rparr>"

text \<open>
  The settlement of the \<open>fetch\<close> of request \<open>rid\<close>.  A request whose signal is aborted
  rejects with the abort error whatever the network did.
\<close>

definition settleFetch :: "nat \<Rightarrow> fetch_outcome \<Rightarrow> widget \<Rightarrow> widget" where
  "settleFetch rid out s =
     (case findRequest rid s of
        None \<Rightarrow> s
      | Some r \<Rightarrow>
          if phase r \<noteq> AwaitingFetch then s
          else if signal r \<in> set (abortedSignals s) then
            catchHandler abortError (dropRequest rid s)
          else
            (case out of
               FetchResolved ok \<Rightarrow> setPhase rid (AwaitingBody ok) (afterFetch s)
             | FetchRejected e \<Rightarrow> catchHandler e (dropRequest rid s)))"

definition settleBody :: "nat \<Rightarrow> body_outcome \<Rightarrow> widget \<Rightarrow> widget" where
  "settleBody rid out s =
     (case findRequest rid s of
        None \<Rightarrow> s
      | Some r \<Rightarrow>
          (case phase r of
             AwaitingFetch \<Rightarrow> s
           | AwaitingBody ok \<Rightarrow>
               (case out of
                  BodyThrows e \<Rightarrow> catchHandler e (dropRequest rid s)
                | BodyParsed j \<Rightarrow>
                    if ok then afterResultBody r j (dropRequest rid s)
                    else afterErrorBody j (dropRequest rid s))))"

text \<open>
  \<open>abort()\<close> rejects the pending \<open>fetch\<close> at once, and the reaction runs as a
  microtask, before the next event: after a handler has run, every request that waits
  on an aborted signal is settled.
\<close>

definition abortedPending :: "widget \<Rightarrow> nat list" where
  "abortedPending s =
     map reqId (filter (\<lambda>r. phase r = AwaitingFetch \<and> signal r \<in> set (abortedSignals s))
                       (inflight s))"

definition deliverAborts :: "widget \<Rightarrow> widget" where
  "deliverAborts s =
     fold (\<lambda>rid. settleFetch rid (FetchRejected abortError)) (abortedPending s) s"

datatype event =
    TypeInput string
  | InputKeydown string
  | ClickSendButton
  | ClickEditButton nat
  | EditBubbleText nat string
  | BubbleKeydown nat string bool
  | ClickToggleVisualization
  | ClickRefresh
  | FetchSettles nat fetch_outcome
  | BodySettles nat body_outcome

text \<open>
  One turn of the event loop: the user sets the value of the input field (by typing, or
  with the arrow of a follow-up question), presses a key in it, clicks the action
  button, an edit button, the visualization toggle or the refresh button, edits an
  editable bubble (its text then reads as typed) or presses a key in it; or a pending \<open>fetch\<close> or \<open>response.json()\<close>
  settles.  A click on an edit button needs the button; typing into a bubble needs it
  editable; a key reaches \<open>onEditableBubbleKeydown\<close> only on a bubble that is editable
  and carries the listener.
\<close>

definition step :: "(string \<Rightarrow> string) \<Rightarrow> event \<Rightarrow> widget \<Rightarrow> widget" where
  "step htmlText ev s =
     (case ev of
        TypeInput v \<Rightarrow> s\<lparr>inputValue := v\<rparr>
      | InputKeydown key \<Rightarrow> deliverAborts (inputFieldKeydown key s)
      | ClickSendButton \<Rightarrow> deliverAborts (handleSendButtonClick htmlText s)
      | ClickEditButton cid \<Rightarrow>
          if cid < length (containers s) \<and> hasEditButton (containers s ! cid)
          then enableEditing cid s else s
      | EditBubbleText cid v \<Rightarrow>
          if cid < length (containers s) \<and> contentEditable (containers s ! cid)
          then updContainer cid (\<lambda>c. c\<lparr>bubble := InnerText v\<rparr>) s else s
      | BubbleKeydown cid key shiftKey \<Rightarrow>
          if cid < length (containers s) \<and> contentEditable (containers s ! cid)
             \<and> keydownListener (containers s ! cid)
          then deliverAborts (onEditableBubbleKeydown htmlText key shiftKey s) else s
      | ClickToggleVisualization \<Rightarrow> toggleChartVisualization s
      | ClickRefresh \<Rightarrow> clearConversationHistory s
      | FetchSettles rid out \<Rightarrow> settleFetch rid out s
      | BodySettles rid out \<Rightarrow> settleBody rid out s)"

definition run :: "(string \<Rightarrow> string) \<Rightarrow> event list \<Rightarrow> widget \<Rightarrow> widget" where
  "run htmlText evs s = fold (step htmlText) evs s"

section \<open>Insights polling\<close>

text \<open>
  The block \<open>if (result.request_id) { ... }\<close>, the same statements in \<open>sendMessage\<close>
  and in \<open>startRequest\<close>: \<open>setInterval\<close> starts the step animation with a period of
  900 ms, \<open>setTimeout(poll, 1000)\<close> schedules the first status check, and \<open>poll\<close>
  reschedules itself.  The state is what the closure holds (\<open>attempts\<close>, \<open>stepTimer\<close>,
  the insights container, the follow-up bubbles added to the message group) and a log of
  the calls made: the status checks issued, the delays passed to \<open>setTimeout\<close>, and, for
  every time the content of the insights container was replaced, what was put there.

  Every status check is taken to settle: its outcome is the \<open>status\<close> read from the
  parsed body, or a throw inside the \<open>try\<close> before anything is rendered (a rejected
  \<open>fetch\<close>, an unparsable body).  \<open>insights\<close> is a string; \<open>follow_up_questions\<close> is an
  array of JSON values, and an entry that is not a string makes \<open>question.replace\<close>
  throw while the follow-up bubble is built.
\<close>

datatype poll_outcome =
    StatusReady "string option" "js_value list option"
  | StatusError
  | StatusOther string
  | PollThrows

datatype insights_node =
    LoadingWrapper
  | InsightsBubble string
  | NoticeBubble bubble_content

datatype terminal =
    ShownReady "string option" "js_value list option"
  | ShownReadyUntilThrow "string option"
  | ShownUnavailable
  | ShownTookTooLong

record poll_state =
  attempts :: nat
  stepTimer :: "nat option"
  insightsContainer :: "insights_node list"
  followUpBubbles :: "string list list"
  statusChecks :: nat
  timeouts :: "nat list"
  terminals :: "terminal list"

definition maxAttempts :: nat where
  "maxAttempts = 20"

definition startPolling :: poll_state where
  "startPolling =
     \<lparr>attempts = 0, stepTimer = Some 900, insightsContainer = [LoadingWrapper],
      followUpBubbles = [], statusChecks = 0, timeouts = [1000], terminals = []\<rparr>"

definition isString :: "js_value \<Rightarrow> bool" where
  "isString v = (case v of JString x \<Rightarrow> True | JOther t json \<Rightarrow> False)"

definition stringOf :: "js_value \<Rightarrow> string" where
  "stringOf v = (case v of JString x \<Rightarrow> x | JOther t json \<Rightarrow> json)"

text \<open>
  \<open>createFollowUpQuestionsBubble\<close> is reached with a non-empty array and throws at the
  first entry that is not a string.
\<close>

definition followUpsThrow :: "js_value list option \<Rightarrow> bool" where
  "followUpsThrow fus = (nonEmptyArray fus \<and> \<not> list_all isString (the fus))"

text \<open>
  The first statements of the \<open>ready\<close> branch: \<open>clearInterval(stepTimer)\<close>, the insights
  container emptied, the insights appended when truthy.
\<close>

definition showInsights :: "string option \<Rightarrow> poll_state \<Rightarrow> poll_state" where
  "showInsights ins ps =
     ps\<lparr>stepTimer := None,
        insightsContainer := (if truthyString ins then [InsightsBubble (the ins)] else [])\<rparr>"

text \<open>The \<open>ready\<close> branch when it runs to its \<open>return\<close>.\<close>

definition renderReady ::
  "string option \<Rightarrow> js_value list option \<Rightarrow> poll_state \<Rightarrow> poll_state" where
  "renderReady ins fus ps =
     (showInsights ins ps)
       \<lparr>followUpBubbles :=
          followUpBubbles ps @ (if nonEmptyArray fus then [map stringOf (the fus)] else []),
        terminals := terminals ps @ [ShownReady ins fus]\<rparr>"

text \<open>The \<open>ready\<close> branch up to the throw in the follow-up bubble.\<close>

definition renderReadyUntilThrow :: "string option \<Rightarrow> poll_state \<Rightarrow> poll_state" where
  "renderReadyUntilThrow ins ps =
     (showInsights ins ps)\<lparr>terminals := terminals ps @ [ShownReadyUntilThrow ins]\<rparr>"

text \<open>
  \<open>clearInterval(stepTimer)\<close>, the insights container emptied, a message bubble with the
  notice appended.
\<close>

definition renderNotice :: "string \<Rightarrow> terminal \<Rightarrow> poll_state \<Rightarrow> poll_state" where
  "renderNotice msg t ps =
     ps\<lparr>stepTimer := None,
        insightsContainer := [NoticeBubble (createMessageBubble (JString msg))],
        terminals := terminals ps @ [t]\<rparr>"

text \<open>
  The statements after the \<open>try\<close>, reached when no branch returned, also through the
  \<open>catch\<close>: \<open>attempts++\<close>, then another \<open>setTimeout(poll, 1000)\<close> or the notice that the
  insights took too long.  The flag tells whether \<open>poll\<close> was scheduled again.
\<close>

definition afterTry :: "poll_state \<Rightarrow> poll_state \<times> bool" where
  "afterTry ps =
     (let ps2 = ps\<lparr>attempts := attempts ps + 1\<rparr> in
      if attempts ps2 < maxAttempts
      then (ps2\<lparr>timeouts := timeouts ps2 @ [1000]\<rparr>, True)
      else (renderNotice ''Insights took too long to generate.'' ShownTookTooLong ps2, False))"

text \<open>One call of \<open>poll\<close> with the outcome of its status check.\<close>

definition pollOnce :: "poll_outcome \<Rightarrow> poll_state \<Rightarrow> poll_state \<times> bool" where
  "pollOnce out ps =
     (let ps1 = ps\<lparr>statusChecks := statusChecks ps + 1\<rparr> in
      case out of
        StatusReady ins fus \<Rightarrow>
          if followUpsThrow fus then afterTry (renderReadyUntilThrow ins ps1)
          else (renderReady ins fus ps1, False)
      | StatusError \<Rightarrow> (renderNotice ''Insights unavailable.'' ShownUnavailable ps1, False)
      | StatusOther st \<Rightarrow> afterTry ps1
      | PollThrows \<Rightarrow> afterTry ps1)"

text \<open>The chain of calls: the \<open>k\<close>-th status check (from 0) has the outcome \<open>env k\<close>.\<close>

function poll :: "(nat \<Rightarrow> poll_outcome) \<Rightarrow> poll_state \<Rightarrow> poll_state" where
  "poll env ps =
     (let r = pollOnce (env (statusChecks ps)) ps in
      if snd r then poll env (fst r) else fst r)"
  by pat_completeness auto

lemma pollOnce_again:
  "snd (pollOnce out ps) \<Longrightarrow>
     attempts (fst (pollOnce out ps)) = attempts ps + 1 \<and>
     attempts (fst (pollOnce out ps)) < maxAttempts"
  by (cases out)
     (auto simp: pollOnce_def afterTry_def renderReadyUntilThrow_def showInsights_def Let_def
        split: if_splits)

termination poll
proof (relation "measure (\<lambda>(env, ps). maxAttempts - attempts ps)")
  show "wf (measure (\<lambda>(env, ps). maxAttempts - attempts ps))"
    by simp
next
  fix env :: "nat \<Rightarrow> poll_outcome" and ps r
  assume "r = pollOnce (env (statusChecks ps)) ps" and "snd r"
  then have "attempts (fst r) = attempts ps + 1 \<and> attempts (fst r) < maxAttempts"
    using pollOnce_again by blast
  then show "((env, fst r), (env, ps)) \<in> measure (\<lambda>(env, ps). maxAttempts - attempts ps)"
    by auto
qed

definition runPoll :: "(nat \<Rightarrow> poll_outcome) \<Rightarrow> poll_state" where
  "runPoll env = poll env startPolling"

section \<open>Reachable states and sample runs\<close>


text \<open>
  What holds of every state the event loop can reach from \<open>initWidget\<close>: request and
  controller identifiers are below the counters that issue them, the references into the
  container list are in range, and no request waits on a signal that is already aborted
  (its rejection has been delivered).
\<close>

definition refsValid :: "widget \<Rightarrow> bool" where
  "refsValid s =
     (distinct (map reqId (inflight s)) \<and>
      (\<forall>r \<in> set (inflight s). reqId r < requestsIssued s \<and> signal r < controllersCreated s) \<and>
      (\<forall>c \<in> set (abortedSignals s). c < controllersCreated s) \<and>
      (\<forall>c. currentAbortController s = Some c \<longrightarrow> c < controllersCreated s) \<and>
      (\<forall>c. lastUserMessageContainer s = Some c \<longrightarrow> c < length (containers s)) \<and>
      (\<forall>b. activeEditableBubble s = Some b \<longrightarrow> b < length (containers s)))"

definition wellFormed :: "widget \<Rightarrow> bool" where
  "wellFormed s =
     (distinct (map reqId (inflight s)) \<and>
      (\<forall>r \<in> set (inflight s). reqId r < requestsIssued s \<and> signal r < controllersCreated s) \<and>
      (\<forall>c \<in> set (abortedSignals s). c < controllersCreated s) \<and>
      (\<forall>c. currentAbortController s = Some c \<longrightarrow> c < controllersCreated s) \<and>
      (\<forall>c. lastUserMessageContainer s = Some c \<longrightarrow> c < length (containers s)) \<and>
      (\<forall>b. activeEditableBubble s = Some b \<longrightarrow> b < length (containers s)) \<and>
      abortedPending s = [])"

text \<open>
  The events that, while the processing flag is set, neither start nor settle a request
  and leave the history alone: typing into the input field, a key pressed in it (Enter
  is ignored while the flag is set), a click on an edit button, an edit of an editable
  bubble, a click on the visualization toggle.
\<close>

definition quiet :: "event \<Rightarrow> bool" where
  "quiet ev =
     (case ev of
        TypeInput v \<Rightarrow> True
      | InputKeydown key \<Rightarrow> True
      | ClickEditButton cid \<Rightarrow> True
      | EditBubbleText cid v \<Rightarrow> True
      | ClickToggleVisualization \<Rightarrow> True
      | _ \<Rightarrow> False)"

text \<open>
  What quiet events keep of the state \<open>s1\<close> reached by a send, as long as the request
  is in flight: the flag and the control, the history, the last user message container
  \<open>cid\<close> and its content, the current controller, the pending requests.
\<close>

definition inFlightWindow :: "nat \<Rightarrow> widget \<Rightarrow> widget \<Rightarrow> bool" where
  "inFlightWindow cid s1 s' =
     (wellFormed s' \<and> isProcessing s' \<and> sendButtonText s' = ''Stop'' \<and>
      conversationHistory s' = conversationHistory s1 \<and>
      lastUserMessageContainer s' = Some cid \<and>
      currentAbortController s' = currentAbortController s1 \<and>
      inflight s' = inflight s1 \<and>
      abortedSignals s' = abortedSignals s1 \<and>
      controllersCreated s' = controllersCreated s1 \<and>
      requestsIssued s' = requestsIssued s1 \<and>
      length (containers s') = length (containers s1) \<and>
      containers s' ! cid = containers s1 ! cid \<and>
      activeEditableBubble s' \<noteq> Some cid)"


definition throwingReady :: "poll_outcome \<Rightarrow> bool" where
  "throwingReady out = (case out of StatusReady ins fus \<Rightarrow> followUpsThrow fus | _ \<Rightarrow> False)"

text \<open>Sample inputs: response bodies, event traces, states and poll environments.\<close>

definition emptyBody :: json_body where
  "emptyBody = \<lparr>detail = None, conversation_history = None, error = None, question = None,
      data = None, chart = None, request_id = None\<rparr>"

definition sendReady :: widget where
  "sendReady = initWidget\<lparr>inputValue := ''  Show tickets ''\<rparr>"

definition traceAwaitingBody :: "event list" where
  "traceAwaitingBody =
     [TypeInput ''a'', InputKeydown ''Enter'', FetchSettles 0 (FetchResolved True)]"

definition traceTwoInFlight :: "event list" where
  "traceTwoInFlight =
     [TypeInput ''A'', InputKeydown ''Enter'', ClickSendButton,
      TypeInput ''B'', InputKeydown ''Enter'',
      ClickEditButton 0, BubbleKeydown 0 ''Enter'' False]"

definition envThrowsThenReady :: "nat \<Rightarrow> poll_outcome" where
  "envThrowsThenReady k =
     (if k = 2 then StatusReady (Some ''Sales rose.'') (Some [JString ''Why?'']) else PollThrows)"

definition envAlwaysThrows :: "nat \<Rightarrow> poll_outcome" where
  "envAlwaysThrows k = PollThrows"

definition envPendingThenError :: "nat \<Rightarrow> poll_outcome" where
  "envPendingThenError k = (if k = 1 then StatusError else StatusOther ''pending'')"

definition abortErrorNamed :: js_error where
  "abortErrorNamed = \<lparr>errName = ''AbortError'', errCode = None, errMessage = ''not from abort()''\<rparr>"

definition syntaxError :: js_error where
  "syntaxError = \<lparr>errName = ''SyntaxError'', errCode = None, errMessage = ''Unexpected token''\<rparr>"

definition errorBody :: json_body where
  "errorBody = emptyBody\<lparr>detail := Some (JString ''boom'')\<rparr>"


text \<open>
  A message is sent while an earlier request, answered with an error status, still waits
  for its body; the body arrives before the cancel.
\<close>

definition traceBodyBeforeCancel :: "event list" where
  "traceBodyBeforeCancel =
     [TypeInput ''x'', InputKeydown ''Enter'', FetchSettles 0 (FetchResolved False),
      TypeInput ''A'', InputKeydown ''Enter'',
      BodySettles 0 (BodyParsed errorBody),
      ClickSendButton]"






text \<open>A \<open>ready\<close> payload with a follow-up question that is not a string, then an error.\<close>

definition envReadyThrowsThenError :: "nat \<Rightarrow> poll_outcome" where
  "envReadyThrowsThenError k =
     (if k = 0 then StatusReady (Some ''Sales rose.'') (Some [JOther True ''42''])
      else StatusError)"

text \<open>A sample of quiet events.\<close>

definition quietSample :: "event list" where
  "quietSample =
     [TypeInput ''next question'', InputKeydown ''Enter'', ClickToggleVisualization,
      ClickEditButton 0, EditBubbleText 0 ''typed'']"

text \<open>\<open>A\<close> is sent and cancelled, its bubble is opened for editing and changed to \<open>B\<close>.\<close>

definition traceEditing :: "event list" where
  "traceEditing =
     [TypeInput ''A'', InputKeydown ''Enter'', ClickSendButton, ClickEditButton 0,
      EditBubbleText 0 ''B'']"




text \<open>
  States of a request for \<open>a\<close>: waiting for the response, and waiting for the body of
  a response with an error status or with an ok status.
\<close>

definition fetchPending :: widget where
  "fetchPending = sendMessage (initWidget\<lparr>inputValue := ''a''\<rparr>)"

definition errorPending :: widget where
  "errorPending = settleFetch 0 (FetchResolved False) fetchPending"

definition okPending :: widget where
  "okPending = settleFetch 0 (FetchResolved True) fetchPending"

definition fencedDetail :: string where
  "fencedDetail = ''Query failed: '' @ fence @ ''no such table'' @ fence"

section \<open>Properties of chart-intent detection\<close>

lemma startsWith_iff: "startsWith s t \<longleftrightarrow> (\<exists>b. s = t @ b)"
  by (induction s t rule: startsWith.induct) auto

lemma includes_str_iff: "includes_str s t \<longleftrightarrow> (\<exists>a b. s = a @ t @ b)"
proof (induction s)
  case Nil
  then show ?case by (cases t) auto
next
  case (Cons d s)
  show ?case
  proof
    assume "includes_str (d # s) t"
    then consider "startsWith (d # s) t" | "includes_str s t" by auto
    then show "\<exists>a b. d # s = a @ t @ b"
    proof cases
      case 1
      then obtain b where "d # s = t @ b" unfolding startsWith_iff by blast
      then have "d # s = [] @ t @ b" by simp
      then show ?thesis by blast
    next
      case 2
      then obtain a b where "s = a @ t @ b" using Cons.IH by auto
      then have "d # s = (d # a) @ t @ b" by simp
      then show ?thesis by blast
    qed
  next
    assume "\<exists>a b. d # s = a @ t @ b"
    then obtain a b where ab: "d # s = a @ t @ b" by blast
    show "includes_str (d # s) t"
    proof (cases a)
      case Nil
      with ab have "startsWith (d # s) t" unfolding startsWith_iff by auto
      then show ?thesis by simp
    next
      case (Cons x a')
      then have "s = a' @ t @ b" using ab by simp
      then have "includes_str s t" using Cons.IH by blast
      then show ?thesis by simp
    qed
  qed
qed

lemma includes_str_map:
  assumes "includes_str s t"
  shows "includes_str (map f s) (map f t)"
proof -
  from assms obtain a b where "s = a @ t @ b" unfolding includes_str_iff by blast
  then have "map f s = map f a @ map f t @ map f b" by simp
  then show ?thesis unfolding includes_str_iff by blast
qed

lemma phrases_lower: "p \<in> set phrases \<Longrightarrow> toLowerCase p = p"
  by (auto simp: phrases_def toLowerCase_def toLowerChar_def)

lemma includes_str_toLowerCase:
  assumes "includes_str q p" and "toLowerCase p = p"
  shows "includes_str (toLowerCase q) p"
  using includes_str_map[OF assms(1), of toLowerChar] assms(2)
  by (simp add: toLowerCase_def)

lemma phraseLoop_iff: "phraseLoop ql ps \<longleftrightarrow> (\<exists>p \<in> set ps. includes_str ql p)"
  by (induction ps) auto

lemma keywordLoop_iff:
  "keywordLoop ql ks \<longleftrightarrow>
     (\<exists>k \<in> set ks. includes_str ql k \<and> (isGenericVerb k \<longrightarrow> hasChartContext ql))"
  by (induction ks) auto

lemma detectChartRequest_iff:
  "detectChartRequest q \<longleftrightarrow>
     (\<exists>p \<in> set phrases. includes_str (toLowerCase q) p) \<or>
     (\<exists>k \<in> set chartKeywords. includes_str (toLowerCase q) k \<and>
        (isGenericVerb k \<longrightarrow> hasChartContext (toLowerCase q)))"
  by (simp add: detectChartRequest_def Let_def phraseLoop_iff keywordLoop_iff)

lemma chartRelated_keywords_direct:
  "t \<in> set chartRelated \<Longrightarrow> t \<in> set chartKeywords \<and> \<not> isGenericVerb t"
  by (auto simp: chartRelated_def chartKeywords_def isGenericVerb_def)

lemma hasChartContext_iff: "hasChartContext ql \<longleftrightarrow> (\<exists>t \<in> set chartRelated. includes_str ql t)"
  by (simp add: hasChartContext_def list_ex_iff)

text \<open>
  Claim C5.  \<open>detectChartRequest\<close> returns true for every query that contains
  \<open>over time\<close> or any phrase of the exact-phrase list, as typed in lower case or
  after lowercasing.  It returns false for every query in which no phrase is found, the
  only keywords found are generic verbs (show, display, create, generate, make) and no
  chart-domain noun is found.  It returns true exactly when some phrase is found, or some
  keyword is found that is not a generic verb or comes with chart context: the first
  match returns true and no match returns false.
\<close>

theorem detectChartRequest_phrases_and_generic_verbs:
  "(includes_str q ''over time'' \<or> includes_str (toLowerCase q) ''over time''
      \<longrightarrow> detectChartRequest q) \<and>
   (\<forall>p \<in> set phrases.
      includes_str q p \<or> includes_str (toLowerCase q) p \<longrightarrow> detectChartRequest q) \<and>
   ((\<forall>p \<in> set phrases. \<not> includes_str (toLowerCase q) p) \<and>
    (\<forall>k \<in> set chartKeywords. includes_str (toLowerCase q) k \<longrightarrow> isGenericVerb k) \<and>
    (\<forall>n \<in> set [''chart'', ''graph'', ''plot'', ''visualization'', ''trend'', ''pattern''].
        \<not> includes_str (toLowerCase q) n)
      \<longrightarrow> \<not> detectChartRequest q) \<and>
   (detectChartRequest q \<longleftrightarrow>
      (\<exists>p \<in> set phrases. includes_str (toLowerCase q) p) \<or>
      (\<exists>k \<in> set chartKeywords. includes_str (toLowerCase q) k \<and>
         (isGenericVerb k \<longrightarrow> hasChartContext (toLowerCase q))))"
proof (intro conjI)
  have ph: "detectChartRequest q"
    if "p \<in> set phrases" "includes_str q p \<or> includes_str (toLowerCase q) p" for p
  proof -
    from that have "includes_str (toLowerCase q) p"
      using includes_str_toLowerCase phrases_lower by blast
    with that(1) show ?thesis unfolding detectChartRequest_iff by blast
  qed
  have ot: "''over time'' \<in> set phrases" by (simp add: phrases_def)
  show "includes_str q ''over time'' \<or> includes_str (toLowerCase q) ''over time''
      \<longrightarrow> detectChartRequest q"
    using ph[OF ot] by blast
  show "\<forall>p \<in> set phrases.
      includes_str q p \<or> includes_str (toLowerCase q) p \<longrightarrow> detectChartRequest q"
    using ph by blast
  show "(\<forall>p \<in> set phrases. \<not> includes_str (toLowerCase q) p) \<and>
    (\<forall>k \<in> set chartKeywords. includes_str (toLowerCase q) k \<longrightarrow> isGenericVerb k) \<and>
    (\<forall>n \<in> set [''chart'', ''graph'', ''plot'', ''visualization'', ''trend'', ''pattern''].
        \<not> includes_str (toLowerCase q) n)
      \<longrightarrow> \<not> detectChartRequest q"
  proof (intro impI)
    assume h: "(\<forall>p \<in> set phrases. \<not> includes_str (toLowerCase q) p) \<and>
    (\<forall>k \<in> set chartKeywords. includes_str (toLowerCase q) k \<longrightarrow> isGenericVerb k) \<and>
    (\<forall>n \<in> set [''chart'', ''graph'', ''plot'', ''visualization'', ''trend'', ''pattern''].
        \<not> includes_str (toLowerCase q) n)"
    have "\<not> hasChartContext (toLowerCase q)"
      unfolding hasChartContext_iff using h chartRelated_keywords_direct by blast
    with h show "\<not> detectChartRequest q"
      unfolding detectChartRequest_iff by blast
  qed
  show "detectChartRequest q \<longleftrightarrow>
      (\<exists>p \<in> set phrases. includes_str (toLowerCase q) p) \<or>
      (\<exists>k \<in> set chartKeywords. includes_str (toLowerCase q) k \<and>
         (isGenericVerb k \<longrightarrow> hasChartContext (toLowerCase q)))"
    by (rule detectChartRequest_iff)
qed

lemma no_match_show_tickets:
  "(\<forall>p \<in> set phrases. \<not> includes_str (toLowerCase ''Show tickets'') p) \<and>
   (\<forall>k \<in> set chartKeywords. includes_str (toLowerCase ''Show tickets'') k \<longrightarrow> isGenericVerb k) \<and>
   (\<forall>n \<in> set [''chart'', ''graph'', ''plot'', ''visualization'', ''trend'', ''pattern''].
        \<not> includes_str (toLowerCase ''Show tickets'') n)"
  by code_simp

theorem detectChartRequest_phrases_and_generic_verbs_witness:
  "includes_str (toLowerCase ''Sales OVER time'') ''over time'' \<and>
   detectChartRequest ''Sales OVER time'' \<and>
   includes_str (toLowerCase ''A BAR chart, please'') ''bar chart'' \<and>
   detectChartRequest ''A BAR chart, please'' \<and>
   includes_str (toLowerCase ''Show tickets'') ''show'' \<and>
   \<not> detectChartRequest ''Show tickets''"
proof -
  have a: "includes_str (toLowerCase ''Sales OVER time'') ''over time''"
    by code_simp
  have b: "includes_str (toLowerCase ''Show tickets'') ''show''"
    by code_simp
  have c: "''bar chart'' \<in> set phrases \<and>
      includes_str (toLowerCase ''A BAR chart, please'') ''bar chart''"
    by code_simp
  from a detectChartRequest_phrases_and_generic_verbs[of "''Sales OVER time''"]
  have r1: "detectChartRequest ''Sales OVER time''" by blast
  from c detectChartRequest_phrases_and_generic_verbs[of "''A BAR chart, please''"]
  have r2: "detectChartRequest ''A BAR chart, please''" by blast
  from no_match_show_tickets detectChartRequest_phrases_and_generic_verbs[of "''Show tickets''"]
  have r3: "\<not> detectChartRequest ''Show tickets''" by blast
  from a b c r1 r2 r3 show ?thesis by blast
qed

text \<open>
  Claim C10.  Keywords are matched by substring containment in the lowercased query, and
  \<open>draw\<close> and \<open>build\<close> are not among the guarded verbs: every query whose lowercased
  text contains \<open>draw\<close> or \<open>build\<close>, also inside a longer word, is a chart request,
  whatever else it contains.
\<close>

theorem detectChartRequest_draw_build_unguarded:
  "\<not> isGenericVerb ''draw'' \<and> \<not> isGenericVerb ''build'' \<and>
   (includes_str (toLowerCase q) ''draw'' \<or> includes_str (toLowerCase q) ''build''
      \<longrightarrow> detectChartRequest q)"
proof -
  have "''draw'' \<in> set chartKeywords" "''build'' \<in> set chartKeywords"
    by (simp_all add: chartKeywords_def)
  moreover have g: "\<not> isGenericVerb ''draw''" "\<not> isGenericVerb ''build''"
    by (simp_all add: isGenericVerb_def)
  ultimately have "includes_str (toLowerCase q) ''draw'' \<or>
      includes_str (toLowerCase q) ''build'' \<longrightarrow> detectChartRequest q"
    unfolding detectChartRequest_iff by blast
  with g show ?thesis by blast
qed

theorem detectChartRequest_draw_build_unguarded_witness:
  "includes_str (toLowerCase ''Withdraw cash'') ''draw'' \<and>
   \<not> hasChartContext (toLowerCase ''Withdraw cash'') \<and>
   detectChartRequest ''Withdraw cash'' \<and>
   includes_str (toLowerCase ''my BUILDING permits'') ''build'' \<and>
   \<not> hasChartContext (toLowerCase ''my BUILDING permits'') \<and>
   detectChartRequest ''my BUILDING permits''"
proof -
  have a: "includes_str (toLowerCase ''Withdraw cash'') ''draw''"
    and b: "includes_str (toLowerCase ''my BUILDING permits'') ''build''"
    by code_simp+
  have c: "\<not> hasChartContext (toLowerCase ''Withdraw cash'')"
    and d: "\<not> hasChartContext (toLowerCase ''my BUILDING permits'')"
    by code_simp+
  from a b c d
    detectChartRequest_draw_build_unguarded[of "''Withdraw cash''"]
    detectChartRequest_draw_build_unguarded[of "''my BUILDING permits''"]
  show ?thesis by blast
qed

section \<open>What the asynchronous steps leave alone\<close>

lemma catchHandler_frame [simp]:
  "conversationHistory (catchHandler e s) = conversationHistory s"
  "containers (catchHandler e s) = containers s"
  "lastUserMessageContainer (catchHandler e s) = lastUserMessageContainer s"
  "activeEditableBubble (catchHandler e s) = activeEditableBubble s"
  "currentAbortController (catchHandler e s) = currentAbortController s"
  "abortedSignals (catchHandler e s) = abortedSignals s"
  "controllersCreated (catchHandler e s) = controllersCreated s"
  "requestsIssued (catchHandler e s) = requestsIssued s"
  "inflight (catchHandler e s) = inflight s"
  "inputValue (catchHandler e s) = inputValue s"
  "showChartVisualization (catchHandler e s) = showChartVisualization s"
  "pollsStarted (catchHandler e s) = pollsStarted s"
  "isProcessing (catchHandler e s) = False"
  "sendButtonText (catchHandler e s) = ''Send''"
  "sendButtonDataState (catchHandler e s) = None"
  by (simp_all add: catchHandler_def Let_def setProcessingState_def displayLoading_def
        displayMessageAi_def)

lemma dropRequest_frame [simp]:
  "conversationHistory (dropRequest rid s) = conversationHistory s"
  "containers (dropRequest rid s) = containers s"
  "lastUserMessageContainer (dropRequest rid s) = lastUserMessageContainer s"
  "activeEditableBubble (dropRequest rid s) = activeEditableBubble s"
  "currentAbortController (dropRequest rid s) = currentAbortController s"
  "abortedSignals (dropRequest rid s) = abortedSignals s"
  "controllersCreated (dropRequest rid s) = controllersCreated s"
  "requestsIssued (dropRequest rid s) = requestsIssued s"
  "inflight (dropRequest rid s) = filter (\<lambda>r. reqId r \<noteq> rid) (inflight s)"
  "inputValue (dropRequest rid s) = inputValue s"
  "showChartVisualization (dropRequest rid s) = showChartVisualization s"
  "pollsStarted (dropRequest rid s) = pollsStarted s"
  "isProcessing (dropRequest rid s) = isProcessing s"
  "sendButtonText (dropRequest rid s) = sendButtonText s"
  "sendButtonDataState (dropRequest rid s) = sendButtonDataState s"
  "messageArea (dropRequest rid s) = messageArea s"
  by (simp_all add: dropRequest_def)

text \<open>
  A rejected fetch never touches the history, the containers or the references.
\<close>

lemma settleFetch_rejected_frame [simp]:
  "conversationHistory (settleFetch rid (FetchRejected m) s) = conversationHistory s"
  "containers (settleFetch rid (FetchRejected m) s) = containers s"
  "lastUserMessageContainer (settleFetch rid (FetchRejected m) s) = lastUserMessageContainer s"
  "activeEditableBubble (settleFetch rid (FetchRejected m) s) = activeEditableBubble s"
  "currentAbortController (settleFetch rid (FetchRejected m) s) = currentAbortController s"
  "abortedSignals (settleFetch rid (FetchRejected m) s) = abortedSignals s"
  "controllersCreated (settleFetch rid (FetchRejected m) s) = controllersCreated s"
  "requestsIssued (settleFetch rid (FetchRejected m) s) = requestsIssued s"
  "inputValue (settleFetch rid (FetchRejected m) s) = inputValue s"
  "showChartVisualization (settleFetch rid (FetchRejected m) s) = showChartVisualization s"
  "pollsStarted (settleFetch rid (FetchRejected m) s) = pollsStarted s"
  by (simp_all add: settleFetch_def split: option.splits)

lemma settleFetch_rejected_idle:
  "\<not> isProcessing s \<and> sendButtonText s = ''Send'' \<and> sendButtonDataState s = None \<Longrightarrow>
   \<not> isProcessing (settleFetch rid (FetchRejected m) s) \<and>
   sendButtonText (settleFetch rid (FetchRejected m) s) = ''Send'' \<and>
   sendButtonDataState (settleFetch rid (FetchRejected m) s) = None"
  by (simp add: settleFetch_def split: option.splits)

lemma fold_rejected_frame:
  "conversationHistory (fold (\<lambda>rid. settleFetch rid (FetchRejected m)) rids s) = conversationHistory s \<and>
   containers (fold (\<lambda>rid. settleFetch rid (FetchRejected m)) rids s) = containers s \<and>
   lastUserMessageContainer (fold (\<lambda>rid. settleFetch rid (FetchRejected m)) rids s) = lastUserMessageContainer s \<and>
   activeEditableBubble (fold (\<lambda>rid. settleFetch rid (FetchRejected m)) rids s) = activeEditableBubble s \<and>
   currentAbortController (fold (\<lambda>rid. settleFetch rid (FetchRejected m)) rids s) = currentAbortController s \<and>
   abortedSignals (fold (\<lambda>rid. settleFetch rid (FetchRejected m)) rids s) = abortedSignals s \<and>
   controllersCreated (fold (\<lambda>rid. settleFetch rid (FetchRejected m)) rids s) = controllersCreated s \<and>
   requestsIssued (fold (\<lambda>rid. settleFetch rid (FetchRejected m)) rids s) = requestsIssued s \<and>
   inputValue (fold (\<lambda>rid. settleFetch rid (FetchRejected m)) rids s) = inputValue s \<and>
   showChartVisualization (fold (\<lambda>rid. settleFetch rid (FetchRejected m)) rids s) = showChartVisualization s \<and>
   pollsStarted (fold (\<lambda>rid. settleFetch rid (FetchRejected m)) rids s) = pollsStarted s"
  by (induction rids arbitrary: s) simp_all

lemma deliverAborts_frame [simp]:
  "conversationHistory (deliverAborts s) = conversationHistory s"
  "containers (deliverAborts s) = containers s"
  "lastUserMessageContainer (deliverAborts s) = lastUserMessageContainer s"
  "activeEditableBubble (deliverAborts s) = activeEditableBubble s"
  "currentAbortController (deliverAborts s) = currentAbortController s"
  "abortedSignals (deliverAborts s) = abortedSignals s"
  "controllersCreated (deliverAborts s) = controllersCreated s"
  "requestsIssued (deliverAborts s) = requestsIssued s"
  "inputValue (deliverAborts s) = inputValue s"
  "showChartVisualization (deliverAborts s) = showChartVisualization s"
  "pollsStarted (deliverAborts s) = pollsStarted s"
  using fold_rejected_frame[of abortError "abortedPending s" s]
  by (simp_all add: deliverAborts_def)

lemma fold_rejected_idle:
  "\<not> isProcessing s \<and> sendButtonText s = ''Send'' \<and> sendButtonDataState s = None \<Longrightarrow>
   \<not> isProcessing (fold (\<lambda>rid. settleFetch rid (FetchRejected m)) rids s) \<and>
   sendButtonText (fold (\<lambda>rid. settleFetch rid (FetchRejected m)) rids s) = ''Send'' \<and>
   sendButtonDataState (fold (\<lambda>rid. settleFetch rid (FetchRejected m)) rids s) = None"
proof (induction rids arbitrary: s)
  case Nil
  then show ?case by simp
next
  case (Cons rid rids)
  from settleFetch_rejected_idle[OF Cons.prems, of rid m]
  show ?case using Cons.IH by simp
qed

lemma deliverAborts_idle:
  "\<not> isProcessing s \<and> sendButtonText s = ''Send'' \<and> sendButtonDataState s = None \<Longrightarrow>
   \<not> isProcessing (deliverAborts s) \<and> sendButtonText (deliverAborts s) = ''Send'' \<and>
   sendButtonDataState (deliverAborts s) = None"
  unfolding deliverAborts_def by (rule fold_rejected_idle)

lemma deliverAborts_none: "abortedPending s = [] \<Longrightarrow> deliverAborts s = s"
  by (simp add: deliverAborts_def)

lemma afterResultBody_frame [simp]:
  "inflight (afterResultBody r j s) = inflight s"
  "abortedSignals (afterResultBody r j s) = abortedSignals s"
  "controllersCreated (afterResultBody r j s) = controllersCreated s"
  "requestsIssued (afterResultBody r j s) = requestsIssued s"
  "currentAbortController (afterResultBody r j s) = currentAbortController s"
  "lastUserMessageContainer (afterResultBody r j s) = lastUserMessageContainer s"
  "activeEditableBubble (afterResultBody r j s) = activeEditableBubble s"
  "containers (afterResultBody r j s) = containers s"
  "isProcessing (afterResultBody r j s) = isProcessing s"
  "sendButtonText (afterResultBody r j s) = sendButtonText s"
  "sendButtonDataState (afterResultBody r j s) = sendButtonDataState s"
  by (simp_all add: afterResultBody_def Let_def)

lemma afterErrorBody_frame [simp]:
  "inflight (afterErrorBody j s) = inflight s"
  "abortedSignals (afterErrorBody j s) = abortedSignals s"
  "controllersCreated (afterErrorBody j s) = controllersCreated s"
  "requestsIssued (afterErrorBody j s) = requestsIssued s"
  "currentAbortController (afterErrorBody j s) = currentAbortController s"
  "lastUserMessageContainer (afterErrorBody j s) = lastUserMessageContainer s"
  "activeEditableBubble (afterErrorBody j s) = activeEditableBubble s"
  "containers (afterErrorBody j s) = containers s"
  "isProcessing (afterErrorBody j s) = isProcessing s"
  "sendButtonText (afterErrorBody j s) = sendButtonText s"
  "sendButtonDataState (afterErrorBody j s) = sendButtonDataState s"
  by (simp_all add: afterErrorBody_def Let_def displayMessageAi_def)

section \<open>Delivery of abort rejections\<close>

lemma wellFormed_alt: "wellFormed s \<longleftrightarrow> refsValid s \<and> abortedPending s = []"
  by (simp add: wellFormed_def refsValid_def)

lemma findRequest_member:
  assumes "distinct (map reqId (inflight s))" and "r \<in> set (inflight s)"
  shows "findRequest (reqId r) s = Some r"
proof -
  from assms(2) obtain y where y: "find (\<lambda>x. reqId x = reqId r) (inflight s) = Some y"
    by (cases "find (\<lambda>x. reqId x = reqId r) (inflight s)") (auto simp: find_None_iff)
  then have "y \<in> set (inflight s)" "reqId y = reqId r"
    by (auto simp: find_Some_iff)
  with assms have "y = r" by (meson distinct_map inj_onD)
  with y show ?thesis by (simp add: findRequest_def)
qed

lemma settleFetch_aborted:
  assumes "findRequest rid s = Some r" and "phase r = AwaitingFetch"
    and "signal r \<in> set (abortedSignals s)"
  shows "settleFetch rid out s = catchHandler abortError (dropRequest rid s)"
  using assms by (simp add: settleFetch_def)

lemma abortedPending_member:
  "rid \<in> set (abortedPending s) \<longleftrightarrow>
     (\<exists>r \<in> set (inflight s). reqId r = rid \<and> phase r = AwaitingFetch \<and>
        signal r \<in> set (abortedSignals s))"
  by (auto simp: abortedPending_def)

lemma fold_aborts_inflight:
  assumes "distinct (map reqId (inflight s))" and "set rids \<subseteq> set (abortedPending s)"
    and "distinct rids"
  shows "inflight (fold (\<lambda>rid. settleFetch rid (FetchRejected abortError)) rids s) =
           filter (\<lambda>r. reqId r \<notin> set rids) (inflight s)"
  using assms
proof (induction rids arbitrary: s)
  case Nil
  then show ?case by simp
next
  case (Cons rid rids)
  let ?s' = "settleFetch rid (FetchRejected abortError) s"
  from Cons.prems(2) have "rid \<in> set (abortedPending s)" by simp
  then obtain r where r: "r \<in> set (inflight s)" "reqId r = rid" "phase r = AwaitingFetch"
      "signal r \<in> set (abortedSignals s)"
    unfolding abortedPending_member by blast
  then have "findRequest rid s = Some r"
    using findRequest_member[OF Cons.prems(1)] by blast
  then have s': "?s' = catchHandler abortError (dropRequest rid s)"
    using r settleFetch_aborted by blast
  then have inf: "inflight ?s' = filter (\<lambda>r. reqId r \<noteq> rid) (inflight s)"
    and ab: "abortedSignals ?s' = abortedSignals s" by simp_all
  have d: "distinct (map reqId (inflight ?s'))"
    using Cons.prems(1) inf by (simp add: distinct_map_filter)
  have sub: "set rids \<subseteq> set (abortedPending ?s')"
  proof
    fix x assume x: "x \<in> set rids"
    then have "x \<noteq> rid" using Cons.prems(3) by auto
    moreover from x Cons.prems(2) have "x \<in> set (abortedPending s)" by auto
    ultimately show "x \<in> set (abortedPending ?s')"
      unfolding abortedPending_member inf ab by auto
  qed
  have "distinct rids" using Cons.prems(3) by simp
  from Cons.IH[OF d sub this] inf show ?case by (simp add: conj_commute)
qed

lemma deliverAborts_inflight:
  assumes "distinct (map reqId (inflight s))"
  shows "inflight (deliverAborts s) =
           filter (\<lambda>r. \<not> (phase r = AwaitingFetch \<and> signal r \<in> set (abortedSignals s)))
                  (inflight s)"
proof -
  have d: "distinct (abortedPending s)"
    using assms by (simp add: abortedPending_def distinct_map_filter)
  have "inflight (deliverAborts s) =
          filter (\<lambda>r. reqId r \<notin> set (abortedPending s)) (inflight s)"
    unfolding deliverAborts_def by (rule fold_aborts_inflight[OF assms _ d]) simp
  also have "\<dots> = filter (\<lambda>r. \<not> (phase r = AwaitingFetch \<and> signal r \<in> set (abortedSignals s)))
                  (inflight s)"
  proof (rule filter_cong[OF refl])
    fix r assume r: "r \<in> set (inflight s)"
    have "reqId r \<in> set (abortedPending s) \<longleftrightarrow>
            phase r = AwaitingFetch \<and> signal r \<in> set (abortedSignals s)"
    proof
      assume "reqId r \<in> set (abortedPending s)"
      then obtain r' where r': "r' \<in> set (inflight s)" "reqId r' = reqId r"
          "phase r' = AwaitingFetch" "signal r' \<in> set (abortedSignals s)"
        unfolding abortedPending_member by blast
      with assms r have "r' = r" by (meson distinct_map inj_onD)
      with r' show "phase r = AwaitingFetch \<and> signal r \<in> set (abortedSignals s)" by simp
    next
      assume "phase r = AwaitingFetch \<and> signal r \<in> set (abortedSignals s)"
      with r show "reqId r \<in> set (abortedPending s)"
        unfolding abortedPending_member by blast
    qed
    then show "(reqId r \<notin> set (abortedPending s)) =
        (\<not> (phase r = AwaitingFetch \<and> signal r \<in> set (abortedSignals s)))" by simp
  qed
  finally show ?thesis .
qed

lemma deliverAborts_clears:
  assumes "distinct (map reqId (inflight s))"
  shows "abortedPending (deliverAborts s) = []"
  by (simp add: abortedPending_def deliverAborts_inflight[OF assms] filter_empty_conv)

lemma refsValid_deliverAborts:
  assumes "refsValid s"
  shows "wellFormed (deliverAborts s)"
proof -
  from assms have d: "distinct (map reqId (inflight s))" by (simp add: refsValid_def)
  have "refsValid (deliverAborts s)"
    using assms unfolding refsValid_def deliverAborts_inflight[OF d]
    by (simp add: distinct_map_filter)
  with deliverAborts_clears[OF d] show ?thesis by (simp add: wellFormed_alt)
qed

section \<open>Every reachable state is well formed\<close>

lemmas ui_defs = setProcessingState_def displayLoading_def updContainer_def
  makeMessageEditable_def enableEditing_def removeEditToolbar_def displayMessageUser_def
  displayMessageAi_def

lemma refsValid_dispatch: "refsValid s \<Longrightarrow> refsValid (dispatch org q s)"
  by (auto simp: refsValid_def dispatch_def Let_def ui_defs less_Suc_eq)

lemma abortedPending_dispatch:
  "refsValid s \<Longrightarrow> abortedPending (dispatch org q s) = abortedPending s"
  by (auto simp: refsValid_def dispatch_def Let_def ui_defs abortedPending_def)

lemma refsValid_sendMessage: "refsValid s \<Longrightarrow> refsValid (sendMessage s)"
proof -
  assume a: "refsValid s"
  let ?q = "trim (inputValue s)"
  let ?s2 = "(displayMessageUser ?q s)
                \<lparr>lastUserMessageContainer := Some (length (containers s)), inputValue := []\<rparr>"
  have "refsValid ?s2" using a by (auto simp: refsValid_def ui_defs less_Suc_eq)
  then have "refsValid (dispatch FromInput ?q ?s2)" by (rule refsValid_dispatch)
  then show ?thesis using a by (simp add: sendMessage_def Let_def)
qed

lemma abortedPending_sendMessage:
  "refsValid s \<Longrightarrow> abortedPending (sendMessage s) = abortedPending s"
proof -
  assume a: "refsValid s"
  let ?q = "trim (inputValue s)"
  let ?s2 = "(displayMessageUser ?q s)
                \<lparr>lastUserMessageContainer := Some (length (containers s)), inputValue := []\<rparr>"
  have r: "refsValid ?s2" using a by (auto simp: refsValid_def ui_defs less_Suc_eq)
  have "abortedPending ?s2 = abortedPending s" by (simp add: abortedPending_def ui_defs)
  with abortedPending_dispatch[OF r, of FromInput ?q]
  show ?thesis by (simp add: sendMessage_def Let_def)
qed

lemma refsValid_stopRequest: "refsValid s \<Longrightarrow> refsValid (stopRequest s)"
  by (auto simp: refsValid_def stopRequest_def Let_def ui_defs split: option.splits)

lemma refsValid_commitEdit: "refsValid s \<Longrightarrow> refsValid (commitEdit h b s)"
proof -
  assume a: "refsValid s"
  let ?e = "trim (readInnerText h (bubble (containers s ! b)))"
  let ?s1 = "s\<lparr>conversationHistory :=
                 conversationHistory s @ [\<lparr>role = ''user'', content = JString ?e\<rparr>]\<rparr>"
  let ?s4 = "(updContainer b (\<lambda>c. c\<lparr>contentEditable := False\<rparr>)
               (removeEditToolbar (lastUserMessageContainer ?s1) ?s1))
             \<lparr>activeEditableBubble := None\<rparr>"
  have "refsValid ?s4" using a by (auto simp: refsValid_def ui_defs split: option.splits)
  then have "refsValid (dispatch FromEdit ?e ?s4)" by (rule refsValid_dispatch)
  then show ?thesis using a by (simp add: commitEdit_def Let_def startRequest_def)
qed

lemma abortedPending_commitEdit:
  "refsValid s \<Longrightarrow> abortedPending (commitEdit h b s) = abortedPending s"
proof -
  assume a: "refsValid s"
  let ?e = "trim (readInnerText h (bubble (containers s ! b)))"
  let ?s1 = "s\<lparr>conversationHistory :=
                 conversationHistory s @ [\<lparr>role = ''user'', content = JString ?e\<rparr>]\<rparr>"
  let ?s4 = "(updContainer b (\<lambda>c. c\<lparr>contentEditable := False\<rparr>)
               (removeEditToolbar (lastUserMessageContainer ?s1) ?s1))
             \<lparr>activeEditableBubble := None\<rparr>"
  have r: "refsValid ?s4" using a by (auto simp: refsValid_def ui_defs split: option.splits)
  have "abortedPending ?s4 = abortedPending s"
    by (simp add: abortedPending_def ui_defs split: option.splits)
  with abortedPending_dispatch[OF r, of FromEdit ?e]
  show ?thesis by (simp add: commitEdit_def Let_def startRequest_def)
qed

lemma refsValid_handleSendButtonClick: "refsValid s \<Longrightarrow> refsValid (handleSendButtonClick h s)"
  by (simp add: handleSendButtonClick_def refsValid_stopRequest refsValid_commitEdit
        refsValid_sendMessage split: option.splits)

lemma refsValid_inputFieldKeydown: "refsValid s \<Longrightarrow> refsValid (inputFieldKeydown key s)"
  by (simp add: inputFieldKeydown_def refsValid_sendMessage)

lemma refsValid_onEditableBubbleKeydown:
  "refsValid s \<Longrightarrow> refsValid (onEditableBubbleKeydown h key shiftKey s)"
  by (simp add: onEditableBubbleKeydown_def refsValid_commitEdit split: option.splits)

lemma setPhase_reqIds: "map reqId (inflight (setPhase rid ph s)) = map reqId (inflight s)"
  by (simp add: setPhase_def o_def if_distrib[of reqId])

lemma setPhase_set:
  "r' \<in> set (inflight (setPhase rid ph s)) \<Longrightarrow>
     \<exists>r \<in> set (inflight s). reqId r' = reqId r \<and> signal r' = signal r \<and>
        (phase r' = phase r \<or> (reqId r = rid \<and> phase r' = ph))"
  by (auto simp: setPhase_def)

lemma wellFormed_settleFetch:
  assumes "wellFormed s"
  shows "wellFormed (settleFetch rid out s)"
proof (cases "findRequest rid s")
  case None
  then show ?thesis using assms by (simp add: settleFetch_def)
next
  case (Some r)
  show ?thesis
  proof (cases "phase r = AwaitingFetch")
    case False
    then show ?thesis using assms Some by (simp add: settleFetch_def)
  next
    case True
    from Some have rin: "r \<in> set (inflight s)" "reqId r = rid"
      by (auto simp: findRequest_def find_Some_iff)
    with assms True have na: "signal r \<notin> set (abortedSignals s)"
      by (auto simp: wellFormed_def abortedPending_def filter_empty_conv)
    show ?thesis
    proof (cases out)
      case (FetchRejected m)
      then have "settleFetch rid out s = catchHandler m (dropRequest rid s)"
        using Some True na by (simp add: settleFetch_def)
      then show ?thesis using assms
        by (auto simp: wellFormed_def abortedPending_def filter_empty_conv distinct_map_filter)
    next
      case (FetchResolved ok)
      let ?s' = "setPhase rid (AwaitingBody ok) (afterFetch s)"
      have eq: "settleFetch rid out s = ?s'"
        using Some True na FetchResolved by (simp add: settleFetch_def)
      have fr: "abortedSignals ?s' = abortedSignals s" "controllersCreated ?s' = controllersCreated s"
        "requestsIssued ?s' = requestsIssued s" "currentAbortController ?s' = None"
        "lastUserMessageContainer ?s' = lastUserMessageContainer s"
        "activeEditableBubble ?s' = activeEditableBubble s" "containers ?s' = containers s"
        by (simp_all add: setPhase_def afterFetch_def ui_defs)
      have ids: "map reqId (inflight ?s') = map reqId (inflight s)"
        using setPhase_reqIds[of rid "AwaitingBody ok" "afterFetch s"]
        by (simp add: afterFetch_def ui_defs)
      have mem: "\<exists>r \<in> set (inflight s). reqId r' = reqId r \<and> signal r' = signal r \<and>
            (phase r' = phase r \<or> phase r' = AwaitingBody ok)"
        if "r' \<in> set (inflight ?s')" for r'
        using setPhase_set[OF that] by (auto simp: afterFetch_def ui_defs)
      have "refsValid ?s'"
        using assms unfolding wellFormed_alt refsValid_def fr ids
        by (auto dest!: mem)
      moreover have "abortedPending ?s' = []"
        using assms unfolding wellFormed_def abortedPending_def fr filter_empty_conv map_is_Nil_conv
        by (auto dest!: mem)
      ultimately show ?thesis unfolding eq wellFormed_alt by simp
    qed
  qed
qed

lemma wellFormed_settleBody: "wellFormed s \<Longrightarrow> wellFormed (settleBody rid out s)"
  by (auto simp: wellFormed_def settleBody_def abortedPending_def filter_empty_conv
        distinct_map_filter
        split: option.splits phase.splits body_outcome.splits)

lemma wellFormed_step: "wellFormed s \<Longrightarrow> wellFormed (step h ev s)"
proof (cases ev)
  case (TypeInput v)
  assume "wellFormed s"
  then show ?thesis using TypeInput by (simp add: step_def wellFormed_def abortedPending_def)
next
  case (InputKeydown key)
  assume "wellFormed s"
  then show ?thesis using InputKeydown
    by (simp add: step_def wellFormed_alt[of s] refsValid_deliverAborts refsValid_inputFieldKeydown)
next
  case ClickSendButton
  assume "wellFormed s"
  then show ?thesis using ClickSendButton
    by (simp add: step_def wellFormed_alt[of s] refsValid_deliverAborts
          refsValid_handleSendButtonClick)
next
  case (ClickEditButton cid)
  assume "wellFormed s"
  then show ?thesis using ClickEditButton
    by (auto simp: step_def wellFormed_def abortedPending_def ui_defs)
next
  case (EditBubbleText cid v)
  assume "wellFormed s"
  then show ?thesis using EditBubbleText
    by (auto simp: step_def wellFormed_def abortedPending_def ui_defs)
next
  case (BubbleKeydown cid key shiftKey)
  assume "wellFormed s"
  then show ?thesis using BubbleKeydown
    by (simp add: step_def wellFormed_alt[of s] refsValid_deliverAborts
          refsValid_onEditableBubbleKeydown)
next
  case ClickToggleVisualization
  assume "wellFormed s"
  then show ?thesis using ClickToggleVisualization
    by (simp add: step_def wellFormed_def abortedPending_def toggleChartVisualization_def)
next
  case ClickRefresh
  assume "wellFormed s"
  then show ?thesis using ClickRefresh
    by (simp add: step_def wellFormed_def abortedPending_def clearConversationHistory_def)
next
  case (FetchSettles rid out)
  assume "wellFormed s"
  then show ?thesis using FetchSettles by (simp add: step_def wellFormed_settleFetch)
next
  case (BodySettles rid out)
  assume "wellFormed s"
  then show ?thesis using BodySettles by (simp add: step_def wellFormed_settleBody)
qed

lemma wellFormed_initWidget: "wellFormed initWidget"
  by (simp add: wellFormed_def initWidget_def abortedPending_def)

lemma wellFormed_run: "wellFormed s \<Longrightarrow> wellFormed (run h evs s)"
  unfolding run_def by (induction evs arbitrary: s) (simp_all add: wellFormed_step)

lemma wellFormed_reachable: "wellFormed (run h evs initWidget)"
  by (rule wellFormed_run[OF wellFormed_initWidget])

section \<open>Effects of the synchronous functions\<close>

lemma popLastIfUser_snoc_user [simp]:
  "popLastIfUser (h @ [\<lparr>role = ''user'', content = c\<rparr>]) = h"
  by (simp add: popLastIfUser_def)

lemma popLastIfUser_same:
  "popLastIfUser h = h \<longleftrightarrow> h = [] \<or> role (last h) \<noteq> ''user''"
proof (cases "h \<noteq> [] \<and> role (last h) = ''user''")
  case True
  then have "length (butlast h) \<noteq> length h" by (cases h rule: rev_cases) simp_all
  then have "butlast h \<noteq> h" by metis
  with True show ?thesis by (simp add: popLastIfUser_def)
next
  case False
  then show ?thesis by (auto simp: popLastIfUser_def)
qed

lemma dispatch_fields:
  "conversationHistory (dispatch org q s) = conversationHistory s"
  "containers (dispatch org q s) = containers s"
  "lastUserMessageContainer (dispatch org q s) = lastUserMessageContainer s"
  "activeEditableBubble (dispatch org q s) = activeEditableBubble s"
  "inputValue (dispatch org q s) = inputValue s"
  "showChartVisualization (dispatch org q s) = showChartVisualization s"
  "abortedSignals (dispatch org q s) = abortedSignals s"
  "pollsStarted (dispatch org q s) = pollsStarted s"
  "isProcessing (dispatch org q s) = True"
  "sendButtonText (dispatch org q s) = ''Stop''"
  "sendButtonDataState (dispatch org q s) = Some ''processing''"
  "currentAbortController (dispatch org q s) = Some (controllersCreated s)"
  "controllersCreated (dispatch org q s) = controllersCreated s + 1"
  "requestsIssued (dispatch org q s) = requestsIssued s + 1"
  "messageArea (dispatch org q s) =
     remove1 LoadingIndicator (messageArea s) @ [LoadingIndicator]"
  "inflight (dispatch org q s) = inflight s @
     [\<lparr>reqId = requestsIssued s, origin = org, query = q,
       sentHistory = conversationHistory s,
       showCharts = (showChartVisualization s \<or> detectChartRequest q),
       isChartRequest = detectChartRequest q, signal = controllersCreated s,
       phase = AwaitingFetch\<rparr>]"
  by (simp_all add: dispatch_def Let_def ui_defs)

lemma sendMessage_fields:
  assumes "trim (inputValue s) \<noteq> []"
  shows "conversationHistory (sendMessage s) =
           conversationHistory s @ [\<lparr>role = ''user'', content = JString (trim (inputValue s))\<rparr>]"
    and "containers (sendMessage s) = containers s @ [newUserContainer (trim (inputValue s))]"
    and "lastUserMessageContainer (sendMessage s) = Some (length (containers s))"
    and "activeEditableBubble (sendMessage s) = activeEditableBubble s"
    and "inputValue (sendMessage s) = []"
    and "isProcessing (sendMessage s)"
    and "sendButtonText (sendMessage s) = ''Stop''"
    and "currentAbortController (sendMessage s) = Some (controllersCreated s)"
    and "abortedSignals (sendMessage s) = abortedSignals s"
    and "inflight (sendMessage s) = inflight s @
     [\<lparr>reqId = requestsIssued s, origin = FromInput, query = trim (inputValue s),
       sentHistory = conversationHistory s @
          [\<lparr>role = ''user'', content = JString (trim (inputValue s))\<rparr>],
       showCharts = (showChartVisualization s \<or> detectChartRequest (trim (inputValue s))),
       isChartRequest = detectChartRequest (trim (inputValue s)),
       signal = controllersCreated s, phase = AwaitingFetch\<rparr>]"
    and "requestsIssued (sendMessage s) = requestsIssued s + 1"
    and "controllersCreated (sendMessage s) = controllersCreated s + 1"
    and "showChartVisualization (sendMessage s) = showChartVisualization s"
  using assms by (simp_all add: sendMessage_def Let_def dispatch_fields displayMessageUser_def)

lemma stopRequest_fields:
  "conversationHistory (stopRequest s) = popLastIfUser (conversationHistory s)"
  "isProcessing (stopRequest s) = False"
  "sendButtonText (stopRequest s) = ''Send''"
  "sendButtonDataState (stopRequest s) = None"
  "lastUserMessageContainer (stopRequest s) = lastUserMessageContainer s"
  "activeEditableBubble (stopRequest s) = activeEditableBubble s"
  "inputValue (stopRequest s) = inputValue s"
  "inflight (stopRequest s) = inflight s"
  "currentAbortController (stopRequest s) = currentAbortController s"
  "requestsIssued (stopRequest s) = requestsIssued s"
  "controllersCreated (stopRequest s) = controllersCreated s"
  "showChartVisualization (stopRequest s) = showChartVisualization s"
  "abortedSignals (stopRequest s) =
     (case currentAbortController s of None \<Rightarrow> abortedSignals s
      | Some ctl \<Rightarrow> ctl # abortedSignals s)"
  "containers (stopRequest s) =
     (case lastUserMessageContainer s of None \<Rightarrow> containers s
      | Some cid \<Rightarrow> (containers s)[cid := addEditButton (ensureUserActions (containers s ! cid))])"
  by (simp_all add: stopRequest_def Let_def ui_defs split: option.splits)

lemma commitEdit_fields:
  assumes "trim (readInnerText h (bubble (containers s ! b))) \<noteq> []"
  shows "conversationHistory (commitEdit h b s) = conversationHistory s @
            [\<lparr>role = ''user'',
              content = JString (trim (readInnerText h (bubble (containers s ! b))))\<rparr>]"
    and "containers (commitEdit h b s) =
           (case lastUserMessageContainer s of
              None \<Rightarrow> (containers s)[b := (containers s ! b)\<lparr>contentEditable := False\<rparr>]
            | Some cid \<Rightarrow>
                ((containers s)[cid := (containers s ! cid)
                    \<lparr>keydownListener := False, isEditing := False, hasEditButton := False\<rparr>])
                [b := (((containers s)[cid := (containers s ! cid)
                    \<lparr>keydownListener := False, isEditing := False, hasEditButton := False\<rparr>]) ! b)
                    \<lparr>contentEditable := False\<rparr>])"
    and "activeEditableBubble (commitEdit h b s) = None"
    and "lastUserMessageContainer (commitEdit h b s) = lastUserMessageContainer s"
    and "isProcessing (commitEdit h b s)"
    and "sendButtonText (commitEdit h b s) = ''Stop''"
    and "inflight (commitEdit h b s) = inflight s @
     [\<lparr>reqId = requestsIssued s, origin = FromEdit,
       query = trim (readInnerText h (bubble (containers s ! b))),
       sentHistory = conversationHistory s @
          [\<lparr>role = ''user'',
            content = JString (trim (readInnerText h (bubble (containers s ! b))))\<rparr>],
       showCharts = (showChartVisualization s \<or>
          detectChartRequest (trim (readInnerText h (bubble (containers s ! b))))),
       isChartRequest = detectChartRequest (trim (readInnerText h (bubble (containers s ! b)))),
       signal = controllersCreated s, phase = AwaitingFetch\<rparr>]"
  using assms
  by (simp_all add: commitEdit_def Let_def startRequest_def dispatch_fields
        removeEditToolbar_def updContainer_def split: option.splits)

lemma step_send_from_input:
  assumes "wellFormed s" "\<not> isProcessing s" "activeEditableBubble s = None"
  shows "step h (InputKeydown ''Enter'') s = sendMessage s"
    and "step h ClickSendButton s = sendMessage s"
proof -
  from assms(1) have "refsValid s" "abortedPending s = []" by (simp_all add: wellFormed_alt)
  then have "abortedPending (sendMessage s) = []" by (simp add: abortedPending_sendMessage)
  then have "deliverAborts (sendMessage s) = sendMessage s" by (rule deliverAborts_none)
  with assms show "step h (InputKeydown ''Enter'') s = sendMessage s"
    and "step h ClickSendButton s = sendMessage s"
    by (simp_all add: step_def inputFieldKeydown_def handleSendButtonClick_def)
qed

lemma cancel_inflight:
  assumes "wellFormed s" and "refsValid s'"
    and "inflight s' = inflight s @ [r]" and "phase r = AwaitingFetch"
    and "signal r = controllersCreated s"
    and "currentAbortController s' = Some (controllersCreated s)"
    and "abortedSignals s' = abortedSignals s"
  shows "inflight (deliverAborts (stopRequest s')) = inflight s"
proof -
  let ?P = "\<lambda>x. \<not> (phase x = AwaitingFetch \<and>
               signal x \<in> set (abortedSignals (stopRequest s')))"
  from assms(1) have rv: "refsValid s" and np: "abortedPending s = []"
    by (simp_all add: wellFormed_alt)
  have d: "distinct (map reqId (inflight (stopRequest s')))"
    using refsValid_stopRequest[OF assms(2)] by (simp add: refsValid_def)
  have ab: "abortedSignals (stopRequest s') = controllersCreated s # abortedSignals s"
    by (simp add: stopRequest_fields assms(6,7))
  have old: "?P x" if "x \<in> set (inflight s)" for x
    using that rv np unfolding ab
    by (auto simp: refsValid_def abortedPending_def filter_empty_conv)
  then have "filter ?P (inflight s) = inflight s"
    by (simp only: filter_id_conv) blast
  moreover have "filter ?P [r] = []"
    using assms(4,5) unfolding ab by simp
  ultimately have "filter ?P (inflight (stopRequest s')) = inflight s"
    by (simp only: stopRequest_fields assms(3) filter_append) simp
  then show ?thesis
    unfolding deliverAborts_inflight[OF d] .
qed

lemma sendReady_hyps:
  "wellFormed sendReady" "\<not> isProcessing sendReady" "activeEditableBubble sendReady = None"
  "trim (inputValue sendReady) \<noteq> []"
  by (simp add: sendReady_def wellFormed_initWidget[unfolded wellFormed_def] wellFormed_def
        abortedPending_def initWidget_def, simp add: sendReady_def initWidget_def,
      simp add: sendReady_def initWidget_def, code_simp)

section \<open>Quiet events while a request is in flight\<close>

lemma inFlightWindow_step:
  assumes w: "inFlightWindow cid s1 s'" and q: "quiet ev"
    and nb: "\<not> hasEditButton (containers s1 ! cid)"
    and ne: "\<not> contentEditable (containers s1 ! cid)"
  shows "inFlightWindow cid s1 (step h ev s')"
proof -
  from w have wf: "wellFormed s'" by (simp add: inFlightWindow_def)
  then have wf': "wellFormed (step h ev s')" by (rule wellFormed_step)
  from wf have np: "abortedPending s' = []" by (simp add: wellFormed_def)
  show ?thesis
  proof (cases ev)
    case (TypeInput v)
    then show ?thesis using w wf' by (simp add: inFlightWindow_def step_def)
  next
    case (InputKeydown key)
    have "step h ev s' = s'"
      using w np InputKeydown
      by (simp add: step_def inputFieldKeydown_def inFlightWindow_def deliverAborts_none)
    then show ?thesis using w by simp
  next
    case (ClickEditButton c)
    show ?thesis
    proof (cases "c < length (containers s') \<and> hasEditButton (containers s' ! c)")
      case False
      then have "step h ev s' = s'" using ClickEditButton by (auto simp: step_def)
      then show ?thesis using w by simp
    next
      case True
      then have "c \<noteq> cid" using w nb by (auto simp: inFlightWindow_def)
      then show ?thesis using w wf' True ClickEditButton
        by (auto simp: inFlightWindow_def step_def enableEditing_def updContainer_def)
    qed
  next
    case (EditBubbleText c v)
    show ?thesis
    proof (cases "c < length (containers s') \<and> contentEditable (containers s' ! c)")
      case False
      then have "step h ev s' = s'" using EditBubbleText by (auto simp: step_def)
      then show ?thesis using w by simp
    next
      case True
      then have "c \<noteq> cid" using w ne by (auto simp: inFlightWindow_def)
      then show ?thesis using w wf' True EditBubbleText
        by (auto simp: inFlightWindow_def step_def updContainer_def)
    qed
  next
    case ClickToggleVisualization
    then show ?thesis using w wf'
      by (simp add: inFlightWindow_def step_def toggleChartVisualization_def)
  qed (use q in \<open>simp_all add: quiet_def\<close>)
qed

lemma inFlightWindow_run:
  assumes "inFlightWindow cid s1 s'" and "\<forall>ev \<in> set evs. quiet ev"
    and "\<not> hasEditButton (containers s1 ! cid)" and "\<not> contentEditable (containers s1 ! cid)"
  shows "inFlightWindow cid s1 (run h evs s')"
  using assms(1,2)
proof (induction evs arbitrary: s')
  case Nil
  then show ?case by (simp add: run_def)
next
  case (Cons ev evs)
  from Cons.prems have "inFlightWindow cid s1 (step h ev s')"
    using inFlightWindow_step[OF _ _ assms(3,4)] by simp
  with Cons.IH Cons.prems(2) have "inFlightWindow cid s1 (run h evs (step h ev s'))" by simp
  then show ?case by (simp add: run_def)
qed

text \<open>A send from the input field, quiet events, then the cancel.\<close>

lemma send_quiet_cancel:
  fixes h :: "string \<Rightarrow> string"
  assumes "wellFormed s" and "\<not> isProcessing s" and "activeEditableBubble s = None"
    and "trim (inputValue s) \<noteq> []" and "\<forall>ev \<in> set evs. quiet ev"
  defines "cid \<equiv> length (containers s)"
  defines "s1' \<equiv> run h evs (sendMessage s)"
  defines "s2 \<equiv> deliverAborts (stopRequest s1')"
  shows "inFlightWindow cid (sendMessage s) s1'"
    and "step h ClickSendButton s1' = s2"
    and "wellFormed s2"
    and "conversationHistory s2 = conversationHistory s"
    and "inflight s2 = inflight s"
    and "\<not> isProcessing s2 \<and> sendButtonText s2 = ''Send'' \<and> sendButtonDataState s2 = None"
    and "lastUserMessageContainer s2 = Some cid"
    and "length (containers s2) = length (containers s) + 1"
    and "containers s2 ! cid =
           addEditButton (ensureUserActions (newUserContainer (trim (inputValue s))))"
    and "activeEditableBubble s2 = activeEditableBubble s1'"
    and "activeEditableBubble s2 \<noteq> Some cid"
    and "requestsIssued s2 = requestsIssued s + 1"
    and "controllersCreated s2 = controllersCreated s + 1"
    and "showChartVisualization s2 = showChartVisualization s1'"
proof -
  let ?s1 = "sendMessage s"
  note sm = sendMessage_fields[OF assms(4)]
  have wf1: "wellFormed ?s1"
    using wellFormed_step[OF assms(1), of h "InputKeydown ''Enter''"]
      step_send_from_input(1)[OF assms(1-3), of h] by simp
  have c1: "containers ?s1 ! cid = newUserContainer (trim (inputValue s))"
    by (simp add: sm cid_def)
  have w0: "inFlightWindow cid ?s1 ?s1"
    using wf1 sm assms(3) by (simp add: inFlightWindow_def cid_def)
  have nb: "\<not> hasEditButton (containers ?s1 ! cid)" "\<not> contentEditable (containers ?s1 ! cid)"
    by (simp_all add: c1 newUserContainer_def ensureUserActions_def)
  show w: "inFlightWindow cid ?s1 s1'"
    unfolding s1'_def by (rule inFlightWindow_run[OF w0 assms(5) nb])
  then have f: "wellFormed s1'" "isProcessing s1'"
    "conversationHistory s1' = conversationHistory ?s1"
    "lastUserMessageContainer s1' = Some cid"
    "currentAbortController s1' = Some (controllersCreated s)"
    "inflight s1' = inflight ?s1" "abortedSignals s1' = abortedSignals s"
    "length (containers s1') = length (containers s) + 1"
    "containers s1' ! cid = newUserContainer (trim (inputValue s))"
    "activeEditableBubble s1' \<noteq> Some cid"
    "requestsIssued s1' = requestsIssued s + 1"
    "controllersCreated s1' = controllersCreated s + 1"
    by (simp_all add: inFlightWindow_def sm cid_def)
  show e2: "step h ClickSendButton s1' = s2"
    using f(2) by (simp add: step_def handleSendButtonClick_def s2_def)
  show "wellFormed s2"
    using wellFormed_step[OF f(1), of h ClickSendButton] e2 by simp
  show "conversationHistory s2 = conversationHistory s"
    by (simp add: s2_def stopRequest_fields f sm)
  have rv: "refsValid s1'" using f(1) by (simp add: wellFormed_alt)
  show "inflight s2 = inflight s"
    unfolding s2_def
    by (rule cancel_inflight[OF assms(1) rv _ _ _ f(5) f(7)]) (simp add: f(6) sm, simp, simp)
  show "\<not> isProcessing s2 \<and> sendButtonText s2 = ''Send'' \<and> sendButtonDataState s2 = None"
    unfolding s2_def by (rule deliverAborts_idle) (simp add: stopRequest_fields)
  show "lastUserMessageContainer s2 = Some cid"
    by (simp add: s2_def stopRequest_fields f)
  show "length (containers s2) = length (containers s) + 1"
    by (simp add: s2_def stopRequest_fields f)
  show "containers s2 ! cid =
           addEditButton (ensureUserActions (newUserContainer (trim (inputValue s))))"
    using f(9) by (simp add: s2_def stopRequest_fields f(4,8) cid_def)
  show "activeEditableBubble s2 = activeEditableBubble s1'"
    by (simp add: s2_def stopRequest_fields)
  then show "activeEditableBubble s2 \<noteq> Some cid" using f(10) by simp
  show "requestsIssued s2 = requestsIssued s + 1"
    by (simp add: s2_def stopRequest_fields f)
  show "controllersCreated s2 = controllersCreated s + 1"
    by (simp add: s2_def stopRequest_fields f)
  show "showChartVisualization s2 = showChartVisualization s1'"
    by (simp add: s2_def stopRequest_fields)
qed

lemma quiet_step_processing:
  assumes "wellFormed s'" and "isProcessing s'" and "quiet ev"
  shows "wellFormed (step h ev s') \<and> isProcessing (step h ev s') \<and>
         conversationHistory (step h ev s') = conversationHistory s'"
proof -
  from assms(1) have np: "abortedPending s' = []" by (simp add: wellFormed_def)
  have "isProcessing (step h ev s') \<and> conversationHistory (step h ev s') = conversationHistory s'"
  proof (cases ev)
    case (InputKeydown key)
    have "step h ev s' = s'"
      using assms(2) np InputKeydown
      by (simp add: step_def inputFieldKeydown_def deliverAborts_none)
    then show ?thesis using assms(2) by simp
  qed (use assms(2,3) in \<open>simp_all add: quiet_def step_def enableEditing_def updContainer_def
         toggleChartVisualization_def\<close>)
  with wellFormed_step[OF assms(1)] show ?thesis by simp
qed

lemma quiet_run_processing:
  assumes "wellFormed s'" and "isProcessing s'" and "\<forall>ev \<in> set evs. quiet ev"
  shows "wellFormed (run h evs s') \<and> isProcessing (run h evs s') \<and>
         conversationHistory (run h evs s') = conversationHistory s'"
  using assms
proof (induction evs arbitrary: s')
  case Nil
  then show ?case by (simp add: run_def)
next
  case (Cons ev evs)
  from quiet_step_processing[OF Cons.prems(1,2), of ev h] Cons.prems(3)
  have a: "wellFormed (step h ev s')" "isProcessing (step h ev s')"
    "conversationHistory (step h ev s') = conversationHistory s'" by simp_all
  from Cons.IH[OF a(1,2)] Cons.prems(3) a(3) show ?case by (simp add: run_def)
qed

section \<open>Send, then cancel\<close>

text \<open>
  Claim C1, as the claim states it, fails on both points.

  The bubble: after \<open>A\<close> is sent from the initial state and the request is cancelled,
  the history is empty again and the sent bubble is in the last user message container,
  which now has an edit button; but the bubble is not editable: its \<open>contentEditable\<close>
  is unset, no bubble is the active editable one, and text typed into it does not
  arrive.

  The history: \<open>x\<close> is sent and answered with an error status, which clears the
  processing flag before the body is awaited; \<open>A\<close> is sent, the history being
  \<open>[x]\<close>; the error body of the first request arrives and is recorded; then the
  request for \<open>A\<close>, still awaiting its response, is cancelled.  The last turn is not
  a user turn, nothing is removed, and the history has three entries, not one.
\<close>

theorem cancelled_send_counterexample:
  "\<forall>h.
   length (conversationHistory
      (run h [TypeInput ''A'', InputKeydown ''Enter'', ClickSendButton] initWidget)) = 0 \<and>
   lastUserMessageContainer
      (run h [TypeInput ''A'', InputKeydown ''Enter'', ClickSendButton] initWidget) = Some 0 \<and>
   hasEditButton (containers
      (run h [TypeInput ''A'', InputKeydown ''Enter'', ClickSendButton] initWidget) ! 0) \<and>
   \<not> contentEditable (containers
      (run h [TypeInput ''A'', InputKeydown ''Enter'', ClickSendButton] initWidget) ! 0) \<and>
   activeEditableBubble
      (run h [TypeInput ''A'', InputKeydown ''Enter'', ClickSendButton] initWidget) = None \<and>
   bubble (containers
      (run h [TypeInput ''A'', InputKeydown ''Enter'', ClickSendButton, EditBubbleText 0 ''B'']
         initWidget) ! 0) = InnerText ''A'' \<and>
   conversationHistory
      (run h [TypeInput ''x'', InputKeydown ''Enter'', FetchSettles 0 (FetchResolved False),
              TypeInput ''A''] initWidget) =
      [\<lparr>role = ''user'', content = JString ''x''\<rparr>] \<and>
   \<not> isProcessing
      (run h [TypeInput ''x'', InputKeydown ''Enter'', FetchSettles 0 (FetchResolved False),
              TypeInput ''A''] initWidget) \<and>
   isProcessing (run h (butlast traceBodyBeforeCancel) initWidget) \<and>
   map (\<lambda>r. (query r, phase r)) (inflight (run h (butlast traceBodyBeforeCancel) initWidget)) =
      [(''A'', AwaitingFetch)] \<and>
   inflight (run h traceBodyBeforeCancel initWidget) = [] \<and>
   \<not> isProcessing (run h traceBodyBeforeCancel initWidget) \<and>
   conversationHistory (run h traceBodyBeforeCancel initWidget) =
      [\<lparr>role = ''user'', content = JString ''x''\<rparr>,
       \<lparr>role = ''user'', content = JString ''A''\<rparr>,
       \<lparr>role = ''assistant'', content = JString ''boom''\<rparr>]"
proof
  fix h :: "string \<Rightarrow> string"
  show "length (conversationHistory
      (run h [TypeInput ''A'', InputKeydown ''Enter'', ClickSendButton] initWidget)) = 0 \<and>
   lastUserMessageContainer
      (run h [TypeInput ''A'', InputKeydown ''Enter'', ClickSendButton] initWidget) = Some 0 \<and>
   hasEditButton (containers
      (run h [TypeInput ''A'', InputKeydown ''Enter'', ClickSendButton] initWidget) ! 0) \<and>
   \<not> contentEditable (containers
      (run h [TypeInput ''A'', InputKeydown ''Enter'', ClickSendButton] initWidget) ! 0) \<and>
   activeEditableBubble
      (run h [TypeInput ''A'', InputKeydown ''Enter'', ClickSendButton] initWidget) = None \<and>
   bubble (containers
      (run h [TypeInput ''A'', InputKeydown ''Enter'', ClickSendButton, EditBubbleText 0 ''B'']
         initWidget) ! 0) = InnerText ''A'' \<and>
   conversationHistory
      (run h [TypeInput ''x'', InputKeydown ''Enter'', FetchSettles 0 (FetchResolved False),
              TypeInput ''A''] initWidget) =
      [\<lparr>role = ''user'', content = JString ''x''\<rparr>] \<and>
   \<not> isProcessing
      (run h [TypeInput ''x'', InputKeydown ''Enter'', FetchSettles 0 (FetchResolved False),
              TypeInput ''A''] initWidget) \<and>
   isProcessing (run h (butlast traceBodyBeforeCancel) initWidget) \<and>
   map (\<lambda>r. (query r, phase r)) (inflight (run h (butlast traceBodyBeforeCancel) initWidget)) =
      [(''A'', AwaitingFetch)] \<and>
   inflight (run h traceBodyBeforeCancel initWidget) = [] \<and>
   \<not> isProcessing (run h traceBodyBeforeCancel initWidget) \<and>
   conversationHistory (run h traceBodyBeforeCancel initWidget) =
      [\<lparr>role = ''user'', content = JString ''x''\<rparr>,
       \<lparr>role = ''user'', content = JString ''A''\<rparr>,
       \<lparr>role = ''assistant'', content = JString ''boom''\<rparr>]"
    by code_simp
qed

text \<open>
  Claim C1, amended.  Take a send from the input field (by Enter or by the action
  button) made while no request is flagged as processing, and let it be cancelled while
  its request is in flight, with nothing between the send and the cancel but quiet
  events: typing into the input field, keys pressed in it, clicks on edit buttons,
  typing into bubbles that are editable, clicks on the visualization toggle.  (A
  settlement of an earlier request between the two is not covered: the counterexample
  above is such a run.)  Then: the send appends one user turn; the quiet events leave
  the history alone; \<open>stopRequest\<close> removes the final entry iff its role is \<open>user\<close>, so
  the history is back to what it was before the send; the request is gone and the
  control reads \<open>Send\<close> again.  The sent bubble is the one \<open>createMessageBubble\<close> built
  from the message; its container gets an edit button beside the copy button, and the
  bubble itself stays non-editable until that button is clicked: the click makes it
  \<open>contentEditable\<close> and the active editable bubble.  Likewise for a send made by
  committing an edit, with the action button or with Enter in the bubble: cancelled
  after quiet events only, it leaves the history as it was before the commit.
\<close>

theorem send_then_cancel:
  fixes h :: "string \<Rightarrow> string"
  assumes "wellFormed s" and "\<not> isProcessing s" and "activeEditableBubble s = None"
    and "trim (inputValue s) \<noteq> []" and "\<forall>ev \<in> set evs. quiet ev"
  shows "(let q = trim (inputValue s);
              cid = length (containers s);
              s1 = step h (InputKeydown ''Enter'') s;
              s1' = run h evs s1;
              s2 = step h ClickSendButton s1';
              s3 = step h (ClickEditButton cid) s2
          in step h ClickSendButton s = s1 \<and>
             conversationHistory s1 =
               conversationHistory s @ [\<lparr>role = ''user'', content = JString q\<rparr>] \<and>
             isProcessing s1 \<and> sendButtonText s1 = ''Stop'' \<and>
             conversationHistory s1' = conversationHistory s1 \<and>
             isProcessing s1' \<and> sendButtonText s1' = ''Stop'' \<and>
             inflight s1' = inflight s1 \<and>
             s2 = deliverAborts (stopRequest s1') \<and>
             conversationHistory (stopRequest s1') = popLastIfUser (conversationHistory s1') \<and>
             conversationHistory s2 = conversationHistory s \<and>
             inflight s2 = inflight s \<and>
             \<not> isProcessing s2 \<and> sendButtonText s2 = ''Send'' \<and>
             lastUserMessageContainer s2 = Some cid \<and>
             bubble (containers s2 ! cid) = createMessageBubble (JString q) \<and>
             hasCopyButton (containers s2 ! cid) \<and> hasEditButton (containers s2 ! cid) \<and>
             \<not> contentEditable (containers s2 ! cid) \<and>
             activeEditableBubble s2 \<noteq> Some cid \<and>
             contentEditable (containers s3 ! cid) \<and>
             activeEditableBubble s3 = Some cid \<and>
             conversationHistory s3 = conversationHistory s) \<and>
         (wellFormed t \<and> \<not> isProcessing t \<and> activeEditableBubble t = Some b \<and>
          trim (readInnerText h (bubble (containers t ! b))) \<noteq> []
            \<longrightarrow> (let t1 = step h ClickSendButton t;
                     t1' = run h evs t1;
                     t2 = step h ClickSendButton t1'
                 in conversationHistory t1 = conversationHistory t @
                      [\<lparr>role = ''user'',
                        content = JString (trim (readInnerText h (bubble (containers t ! b))))\<rparr>] \<and>
                    isProcessing t1 \<and>
                    (b < length (containers t) \<and> contentEditable (containers t ! b) \<and>
                     keydownListener (containers t ! b)
                       \<longrightarrow> step h (BubbleKeydown b ''Enter'' False) t = t1) \<and>
                    conversationHistory t1' = conversationHistory t1 \<and> isProcessing t1' \<and>
                    conversationHistory t2 = conversationHistory t \<and>
                    \<not> isProcessing t2 \<and> sendButtonText t2 = ''Send''))"
proof -
  let ?q = "trim (inputValue s)"
  let ?cid = "length (containers s)"
  let ?s1 = "sendMessage s"
  let ?s1' = "run h evs ?s1"
  let ?s2 = "deliverAborts (stopRequest ?s1')"
  let ?s3 = "enableEditing ?cid ?s2"
  note sm = sendMessage_fields[OF assms(4)]
  note sq = send_quiet_cancel[OF assms, of h]
  have ed: "wellFormed t \<and> \<not> isProcessing t \<and> activeEditableBubble t = Some b \<and>
          trim (readInnerText h (bubble (containers t ! b))) \<noteq> []
            \<longrightarrow> (let t1 = step h ClickSendButton t;
                     t1' = run h evs t1;
                     t2 = step h ClickSendButton t1'
                 in conversationHistory t1 = conversationHistory t @
                      [\<lparr>role = ''user'',
                        content = JString (trim (readInnerText h (bubble (containers t ! b))))\<rparr>] \<and>
                    isProcessing t1 \<and>
                    (b < length (containers t) \<and> contentEditable (containers t ! b) \<and>
                     keydownListener (containers t ! b)
                       \<longrightarrow> step h (BubbleKeydown b ''Enter'' False) t = t1) \<and>
                    conversationHistory t1' = conversationHistory t1 \<and> isProcessing t1' \<and>
                    conversationHistory t2 = conversationHistory t \<and>
                    \<not> isProcessing t2 \<and> sendButtonText t2 = ''Send'')"
  proof
    assume a: "wellFormed t \<and> \<not> isProcessing t \<and> activeEditableBubble t = Some b \<and>
          trim (readInnerText h (bubble (containers t ! b))) \<noteq> []"
    let ?t1 = "step h ClickSendButton t"
    let ?t1' = "run h evs ?t1"
    let ?t2 = "step h ClickSendButton ?t1'"
    from a have ne: "trim (readInnerText h (bubble (containers t ! b))) \<noteq> []" by simp
    note ce = commitEdit_fields[OF ne]
    from a have np: "abortedPending t = []" and rv: "refsValid t"
      by (simp_all add: wellFormed_alt)
    have t1: "?t1 = commitEdit h b t"
      using a abortedPending_commitEdit[OF rv, of h b] np
      by (simp add: step_def handleSendButtonClick_def deliverAborts_none)
    have ky: "b < length (containers t) \<and> contentEditable (containers t ! b) \<and>
              keydownListener (containers t ! b)
                \<longrightarrow> step h (BubbleKeydown b ''Enter'' False) t = ?t1"
      unfolding t1 using a abortedPending_commitEdit[OF rv, of h b] np
      by (simp add: step_def onEditableBubbleKeydown_def deliverAborts_none)
    have wf1: "wellFormed ?t1" using a by (simp add: wellFormed_step)
    have p1: "isProcessing ?t1" by (simp add: t1 ce)
    have h1: "conversationHistory ?t1 = conversationHistory t @
                [\<lparr>role = ''user'',
                  content = JString (trim (readInnerText h (bubble (containers t ! b))))\<rparr>]"
      by (simp add: t1 ce)
    from quiet_run_processing[OF wf1 p1 assms(5), of h]
    have w: "isProcessing ?t1'" "conversationHistory ?t1' = conversationHistory ?t1"
      by simp_all
    have t2: "?t2 = deliverAborts (stopRequest ?t1')"
      using w(1) by (simp add: step_def handleSendButtonClick_def)
    have idle: "\<not> isProcessing ?t2 \<and> sendButtonText ?t2 = ''Send'' \<and>
                sendButtonDataState ?t2 = None"
      unfolding t2 by (rule deliverAborts_idle) (simp add: stopRequest_fields)
    have h2: "conversationHistory ?t2 = conversationHistory t"
      unfolding t2 by (simp add: stopRequest_fields w(2) h1)
    show "let t1 = step h ClickSendButton t;
              t1' = run h evs t1;
              t2 = step h ClickSendButton t1'
          in conversationHistory t1 = conversationHistory t @
               [\<lparr>role = ''user'',
                 content = JString (trim (readInnerText h (bubble (containers t ! b))))\<rparr>] \<and>
             isProcessing t1 \<and>
             (b < length (containers t) \<and> contentEditable (containers t ! b) \<and>
              keydownListener (containers t ! b)
                \<longrightarrow> step h (BubbleKeydown b ''Enter'' False) t = t1) \<and>
             conversationHistory t1' = conversationHistory t1 \<and> isProcessing t1' \<and>
             conversationHistory t2 = conversationHistory t \<and>
             \<not> isProcessing t2 \<and> sendButtonText t2 = ''Send''"
      unfolding Let_def using h1 p1 ky w h2 idle by blast
  qed
  have e1: "step h (InputKeydown ''Enter'') s = ?s1" "step h ClickSendButton s = ?s1"
    using step_send_from_input[OF assms(1-3), of h] by simp_all
  have e2: "step h ClickSendButton ?s1' = ?s2" by (rule sq(2))
  from sq(1) have w: "conversationHistory ?s1' = conversationHistory ?s1"
    "isProcessing ?s1'" "sendButtonText ?s1' = ''Stop''" "inflight ?s1' = inflight ?s1"
    by (simp_all add: inFlightWindow_def)
  have cont: "bubble (containers ?s2 ! ?cid) = createMessageBubble (JString ?q)"
    "hasCopyButton (containers ?s2 ! ?cid)"
    "hasEditButton (containers ?s2 ! ?cid)" "\<not> contentEditable (containers ?s2 ! ?cid)"
    unfolding sq(9)
    by (simp_all add: newUserContainer_def ensureUserActions_def addEditButton_def)
  have e3: "step h (ClickEditButton ?cid) ?s2 = ?s3"
    using cont(3) sq(8) by (simp add: step_def)
  have s3: "contentEditable (containers ?s3 ! ?cid)" "activeEditableBubble ?s3 = Some ?cid"
    "conversationHistory ?s3 = conversationHistory ?s2"
    using sq(8) by (simp_all add: enableEditing_def updContainer_def)
  have "step h ClickSendButton s = ?s1 \<and>
      conversationHistory ?s1 =
        conversationHistory s @ [\<lparr>role = ''user'', content = JString ?q\<rparr>] \<and>
      isProcessing ?s1 \<and> sendButtonText ?s1 = ''Stop'' \<and>
      conversationHistory ?s1' = conversationHistory ?s1 \<and>
      isProcessing ?s1' \<and> sendButtonText ?s1' = ''Stop'' \<and>
      inflight ?s1' = inflight ?s1 \<and>
      ?s2 = deliverAborts (stopRequest ?s1') \<and>
      conversationHistory (stopRequest ?s1') = popLastIfUser (conversationHistory ?s1') \<and>
      conversationHistory ?s2 = conversationHistory s \<and>
      inflight ?s2 = inflight s \<and>
      \<not> isProcessing ?s2 \<and> sendButtonText ?s2 = ''Send'' \<and>
      lastUserMessageContainer ?s2 = Some ?cid \<and>
      bubble (containers ?s2 ! ?cid) = createMessageBubble (JString ?q) \<and>
      hasCopyButton (containers ?s2 ! ?cid) \<and> hasEditButton (containers ?s2 ! ?cid) \<and>
      \<not> contentEditable (containers ?s2 ! ?cid) \<and>
      activeEditableBubble ?s2 \<noteq> Some ?cid \<and>
      contentEditable (containers ?s3 ! ?cid) \<and>
      activeEditableBubble ?s3 = Some ?cid \<and>
      conversationHistory ?s3 = conversationHistory s"
    using e1(2) sm(1,6,7) w cont s3 sq(4,5,6,7,11)
    by (simp add: stopRequest_fields)
  then show ?thesis
    unfolding Let_def e1 e2 e3 using ed[unfolded Let_def] by blast
qed

theorem send_then_cancel_witness:
  "\<forall>h.
   list_all quiet quietSample \<and>
   conversationHistory (step h (InputKeydown ''Enter'') sendReady) =
     conversationHistory sendReady @
       [\<lparr>role = ''user'', content = JString (trim (inputValue sendReady))\<rparr>] \<and>
   conversationHistory
     (step h ClickSendButton (run h quietSample (step h (InputKeydown ''Enter'') sendReady))) =
     conversationHistory sendReady \<and>
   hasEditButton
     (containers
        (step h ClickSendButton (run h quietSample (step h (InputKeydown ''Enter'') sendReady))) !
      length (containers sendReady)) \<and>
   wellFormed (run h traceEditing initWidget) \<and>
   \<not> isProcessing (run h traceEditing initWidget) \<and>
   activeEditableBubble (run h traceEditing initWidget) = Some 0 \<and>
   trim (readInnerText h (bubble (containers (run h traceEditing initWidget) ! 0))) \<noteq> [] \<and>
   contentEditable (containers (run h traceEditing initWidget) ! 0) \<and>
   keydownListener (containers (run h traceEditing initWidget) ! 0) \<and>
   step h (BubbleKeydown 0 ''Enter'' False) (run h traceEditing initWidget) =
     step h ClickSendButton (run h traceEditing initWidget) \<and>
   conversationHistory
     (step h ClickSendButton (run h quietSample
        (step h ClickSendButton (run h traceEditing initWidget)))) =
     conversationHistory (run h traceEditing initWidget)"
proof
  fix h :: "string \<Rightarrow> string"
  have q: "\<forall>ev \<in> set quietSample. quiet ev" by code_simp
  have e: "\<not> isProcessing (run h traceEditing initWidget)"
    "activeEditableBubble (run h traceEditing initWidget) = Some 0"
    "trim (readInnerText h (bubble (containers (run h traceEditing initWidget) ! 0))) \<noteq> []"
    "0 < length (containers (run h traceEditing initWidget))"
    "contentEditable (containers (run h traceEditing initWidget) ! 0)"
    "keydownListener (containers (run h traceEditing initWidget) ! 0)"
    by code_simp+
  have ql: "list_all quiet quietSample" by code_simp
  note w = wellFormed_reachable[of h traceEditing]
  from send_then_cancel[OF sendReady_hyps q, unfolded Let_def,
      of h "run h traceEditing initWidget" 0] ql e w
  show "list_all quiet quietSample \<and>
   conversationHistory (step h (InputKeydown ''Enter'') sendReady) =
     conversationHistory sendReady @
       [\<lparr>role = ''user'', content = JString (trim (inputValue sendReady))\<rparr>] \<and>
   conversationHistory
     (step h ClickSendButton (run h quietSample (step h (InputKeydown ''Enter'') sendReady))) =
     conversationHistory sendReady \<and>
   hasEditButton
     (containers
        (step h ClickSendButton (run h quietSample (step h (InputKeydown ''Enter'') sendReady))) !
      length (containers sendReady)) \<and>
   wellFormed (run h traceEditing initWidget) \<and>
   \<not> isProcessing (run h traceEditing initWidget) \<and>
   activeEditableBubble (run h traceEditing initWidget) = Some 0 \<and>
   trim (readInnerText h (bubble (containers (run h traceEditing initWidget) ! 0))) \<noteq> [] \<and>
   contentEditable (containers (run h traceEditing initWidget) ! 0) \<and>
   keydownListener (containers (run h traceEditing initWidget) ! 0) \<and>
   step h (BubbleKeydown 0 ''Enter'' False) (run h traceEditing initWidget) =
     step h ClickSendButton (run h traceEditing initWidget) \<and>
   conversationHistory
     (step h ClickSendButton (run h quietSample
        (step h ClickSendButton (run h traceEditing initWidget)))) =
     conversationHistory (run h traceEditing initWidget)"
    by blast
qed

section \<open>Edit and resubmit\<close>




section \<open>Cancel twice, cancel after completion\<close>

lemma idle_after:
  "\<not> isProcessing (stopRequest s) \<and> sendButtonText (stopRequest s) = ''Send'' \<and>
     sendButtonDataState (stopRequest s) = None"
  "\<not> isProcessing (afterFetch s) \<and> sendButtonText (afterFetch s) = ''Send'' \<and>
     sendButtonDataState (afterFetch s) = None"
  "\<not> isProcessing (catchHandler e s) \<and> sendButtonText (catchHandler e s) = ''Send'' \<and>
     sendButtonDataState (catchHandler e s) = None"
  by (simp_all add: stopRequest_fields afterFetch_def ui_defs)







section \<open>Requests in flight\<close>

text \<open>
  While the processing flag is set, Enter in the input field does nothing and the
  action control calls \<open>stopRequest\<close>.
\<close>

lemma processing_guards:
  "isProcessing s \<Longrightarrow> inputFieldKeydown key s = s"
  "isProcessing s \<Longrightarrow> handleSendButtonClick h s = stopRequest s"
  "isProcessing s \<Longrightarrow> sendButtonText s = ''Stop'' \<Longrightarrow>
     sendButtonText (handleSendButtonClick h s) = ''Send''"
  by (simp_all add: inputFieldKeydown_def handleSendButtonClick_def stopRequest_fields)

text \<open>
  Claim C4 fails on the code: \<open>onEditableBubbleKeydown\<close> and the edit button do not
  test the processing flag.  Send \<open>A\<close> and cancel it (the container of \<open>A\<close> now has
  an edit button); send \<open>B\<close> from the input field; while \<open>B\<close> is in flight click the
  edit button of \<open>A\<close> and press Enter in its bubble.  Two requests now wait for their
  \<open>fetch\<close>, on the signals of two different controllers, neither of them aborted.
\<close>

theorem two_requests_in_flight:
  "\<forall>h.
   isProcessing (run h (take 5 traceTwoInFlight) initWidget) \<and>
   map query (inflight (run h (take 5 traceTwoInFlight) initWidget)) = [''B''] \<and>
   map query (inflight (run h traceTwoInFlight initWidget)) = [''B'', ''A''] \<and>
   map phase (inflight (run h traceTwoInFlight initWidget)) = [AwaitingFetch, AwaitingFetch] \<and>
   map signal (inflight (run h traceTwoInFlight initWidget)) = [1, 2] \<and>
   abortedSignals (run h traceTwoInFlight initWidget) = [0]"
proof
  fix h :: "string \<Rightarrow> string"
  show "isProcessing (run h (take 5 traceTwoInFlight) initWidget) \<and>
   map query (inflight (run h (take 5 traceTwoInFlight) initWidget)) = [''B''] \<and>
   map query (inflight (run h traceTwoInFlight initWidget)) = [''B'', ''A''] \<and>
   map phase (inflight (run h traceTwoInFlight initWidget)) = [AwaitingFetch, AwaitingFetch] \<and>
   map signal (inflight (run h traceTwoInFlight initWidget)) = [1, 2] \<and>
   abortedSignals (run h traceTwoInFlight initWidget) = [0]"
    by code_simp
qed

section \<open>Failure routing\<close>

lemma catchHandler_message_independent:
  "catchHandler (e\<lparr>errMessage := m\<rparr>) s = catchHandler e s"
  by (simp add: catchHandler_def aborted_def)

lemma catchHandler_silent:
  "aborted e \<Longrightarrow> messageArea (catchHandler e s) = remove1 LoadingIndicator (messageArea s)"
  "\<not> aborted e \<Longrightarrow>
     messageArea (catchHandler e s) =
       remove1 LoadingIndicator (messageArea s) @ [AiMessage (createMessageBubble apology)]"
  by (simp_all add: catchHandler_def ui_defs)

lemma catchHandler_abort_idle:
  assumes "\<not> isProcessing s" "sendButtonText s = ''Send''" "sendButtonDataState s = None"
    "LoadingIndicator \<notin> set (messageArea s)"
  shows "catchHandler abortError s = s"
  using assms
  by (simp add: catchHandler_def aborted_def abortError_def ui_defs remove1_idem)

text \<open>
  Claim C8, as the claim states it, fails on two points.

  Shown verbatim: the detail of a response with an error status goes through
  \<open>createMessageBubble\<close>.  A detail with a code fence is set as HTML, the fenced part
  replaced by a \<open>pre\<close> element from which the first line is dropped: of
  \<open>Query failed:\<close> followed by the fenced text \<open>no such table\<close> the bubble keeps the
  first words and an empty code block.  The history does get the detail as it came.

  Signal identity: the \<open>catch\<close> block reads the name and the code of the thrown value
  and never looks at a signal.  A body that fails with a value named \<open>AbortError\<close> is
  silenced like a cancel, although \<open>abort()\<close> was never called; the same failure under
  another name gets the apology.
\<close>

theorem failure_routing_counterexample:
  "messageArea
     (settleBody 0 (BodyParsed (emptyBody\<lparr>detail := Some (JString fencedDetail)\<rparr>)) errorPending) =
     [UserContainer 0,
      AiMessage (InnerHTML (''Query failed: <pre class='' @ [CHR 0x22] @
        ''ai-chat-widget-code-block'' @ [CHR 0x22] @ ''><code></code></pre>''))] \<and>
   conversationHistory
     (settleBody 0 (BodyParsed (emptyBody\<lparr>detail := Some (JString fencedDetail)\<rparr>)) errorPending) =
     [\<lparr>role = ''user'', content = JString ''a''\<rparr>,
      \<lparr>role = ''assistant'', content = JString fencedDetail\<rparr>] \<and>
   (\<forall>h. okPending =
      run h [TypeInput ''a'', InputKeydown ''Enter'', FetchSettles 0 (FetchResolved True)]
        initWidget) \<and>
   abortedSignals okPending = [] \<and>
   abortedSignals (settleBody 0 (BodyThrows abortErrorNamed) okPending) = [] \<and>
   messageArea (settleBody 0 (BodyThrows abortErrorNamed) okPending) = [UserContainer 0] \<and>
   messageArea (settleBody 0 (BodyThrows syntaxError) okPending) =
     [UserContainer 0, AiMessage (createMessageBubble apology)]"
proof -
  have a: "messageArea
     (settleBody 0 (BodyParsed (emptyBody\<lparr>detail := Some (JString fencedDetail)\<rparr>)) errorPending) =
     [UserContainer 0,
      AiMessage (InnerHTML (''Query failed: <pre class='' @ [CHR 0x22] @
        ''ai-chat-widget-code-block'' @ [CHR 0x22] @ ''><code></code></pre>''))] \<and>
   conversationHistory
     (settleBody 0 (BodyParsed (emptyBody\<lparr>detail := Some (JString fencedDetail)\<rparr>)) errorPending) =
     [\<lparr>role = ''user'', content = JString ''a''\<rparr>,
      \<lparr>role = ''assistant'', content = JString fencedDetail\<rparr>]"
    by code_simp
  have b: "\<forall>h. okPending =
      run h [TypeInput ''a'', InputKeydown ''Enter'', FetchSettles 0 (FetchResolved True)]
        initWidget"
  proof
    fix h :: "string \<Rightarrow> string"
    show "okPending =
      run h [TypeInput ''a'', InputKeydown ''Enter'', FetchSettles 0 (FetchResolved True)]
        initWidget"
      by code_simp
  qed
  have c: "abortedSignals okPending = [] \<and>
   abortedSignals (settleBody 0 (BodyThrows abortErrorNamed) okPending) = [] \<and>
   messageArea (settleBody 0 (BodyThrows abortErrorNamed) okPending) = [UserContainer 0] \<and>
   messageArea (settleBody 0 (BodyThrows syntaxError) okPending) =
     [UserContainer 0, AiMessage (createMessageBubble apology)]"
    by code_simp
  from a b c show ?thesis by blast
qed

text \<open>
  Claim C8, amended.  A response that is not ok: the bubble shown is the one
  \<open>createMessageBubble\<close> builds from the \<open>detail\<close> of the body (from
  \<open>An unknown error occurred.\<close> when the detail is missing or falsy), and that same
  value is appended to the history as an \<open>assistant\<close> turn; the bubble shows the detail
  verbatim when it is a string without a code fence, as HTML with the fenced parts
  rewritten when it has one, and as a JSON block when it is not a string.  A rejected
  fetch or a body that throws, the thrown value neither named \<open>AbortError\<close> nor of code
  20 (a \<open>TypeError\<close> of the network is such a value): the apology is shown, the history
  is untouched, the widget is idle again.  A thrown value named \<open>AbortError\<close> or of code
  20: nothing is shown and neither the history nor the containers change, whether or
  not the signal of the request was aborted.  That is how a cancel ends: \<open>stopRequest\<close>
  aborts the signal of the current controller, a fetch whose signal is aborted rejects
  with the abort error whatever the network answered, and in the idle state that
  \<open>stopRequest\<close> left the handler changes nothing at all.  The handler never reads the
  message of the thrown value: replacing it changes nothing.
\<close>

theorem failure_routing:
  "(findRequest rid s = Some r \<and> phase r = AwaitingBody False
      \<longrightarrow> messageArea (settleBody rid (BodyParsed j) s) =
            messageArea s @
              [AiMessage (createMessageBubble (orElse (detail j) ''An unknown error occurred.''))] \<and>
          conversationHistory (settleBody rid (BodyParsed j) s) =
            conversationHistory s @
              [\<lparr>role = ''assistant'',
                content = orElse (detail j) ''An unknown error occurred.''\<rparr>]) \<and>
   (d \<noteq> [] \<longrightarrow>
      orElse (Some (JString d)) ''An unknown error occurred.'' = JString d \<and>
      createMessageBubble (JString d) =
        (if includes_str d fence then InnerHTML (formatMessage d) else InnerText d)) \<and>
   orElse (Some (JOther True json)) ''An unknown error occurred.'' = JOther True json \<and>
   createMessageBubble (JOther True json) = JsonBlock json \<and>
   orElse None ''An unknown error occurred.'' = JString ''An unknown error occurred.'' \<and>
   orElse (Some (JString [])) ''An unknown error occurred.'' =
     JString ''An unknown error occurred.'' \<and>
   (findRequest rid s = Some r \<and> phase r = AwaitingFetch \<and> signal r \<notin> set (abortedSignals s) \<and>
    \<not> aborted e
      \<longrightarrow> messageArea (settleFetch rid (FetchRejected e) s) =
            remove1 LoadingIndicator (messageArea s) @ [AiMessage (createMessageBubble apology)] \<and>
          conversationHistory (settleFetch rid (FetchRejected e) s) = conversationHistory s \<and>
          \<not> isProcessing (settleFetch rid (FetchRejected e) s) \<and>
          sendButtonText (settleFetch rid (FetchRejected e) s) = ''Send'') \<and>
   (findRequest rid s = Some r \<and> phase r = AwaitingBody ok \<and> \<not> aborted e
      \<longrightarrow> messageArea (settleBody rid (BodyThrows e) s) =
            remove1 LoadingIndicator (messageArea s) @ [AiMessage (createMessageBubble apology)] \<and>
          conversationHistory (settleBody rid (BodyThrows e) s) = conversationHistory s) \<and>
   (findRequest rid s = Some r \<and> phase r = AwaitingFetch \<and> aborted e
      \<longrightarrow> messageArea (settleFetch rid (FetchRejected e) s) =
            remove1 LoadingIndicator (messageArea s) \<and>
          conversationHistory (settleFetch rid (FetchRejected e) s) = conversationHistory s \<and>
          containers (settleFetch rid (FetchRejected e) s) = containers s) \<and>
   (findRequest rid s = Some r \<and> phase r = AwaitingBody ok \<and> aborted e
      \<longrightarrow> messageArea (settleBody rid (BodyThrows e) s) =
            remove1 LoadingIndicator (messageArea s) \<and>
          conversationHistory (settleBody rid (BodyThrows e) s) = conversationHistory s \<and>
          containers (settleBody rid (BodyThrows e) s) = containers s) \<and>
   (findRequest rid s = Some r \<and> phase r = AwaitingFetch \<and> signal r \<in> set (abortedSignals s)
      \<longrightarrow> settleFetch rid out s = catchHandler abortError (dropRequest rid s) \<and>
          messageArea (settleFetch rid out s) = remove1 LoadingIndicator (messageArea s) \<and>
          conversationHistory (settleFetch rid out s) = conversationHistory s \<and>
          containers (settleFetch rid out s) = containers s) \<and>
   (currentAbortController s = Some c \<longrightarrow> c \<in> set (abortedSignals (stopRequest s))) \<and>
   (\<not> isProcessing s \<and> sendButtonText s = ''Send'' \<and> sendButtonDataState s = None \<and>
    LoadingIndicator \<notin> set (messageArea s)
      \<longrightarrow> catchHandler abortError s = s) \<and>
   aborted e = (errName e = ''AbortError'' \<or> errCode e = Some 20) \<and>
   aborted abortError \<and> \<not> aborted (typeError m) \<and>
   aborted (e\<lparr>errMessage := m'\<rparr>) = aborted e \<and>
   catchHandler (e\<lparr>errMessage := m'\<rparr>) s = catchHandler e s"
proof (intro conjI impI)
  assume a: "findRequest rid s = Some r \<and> phase r = AwaitingBody False"
  then have eq: "settleBody rid (BodyParsed j) s = afterErrorBody j (dropRequest rid s)"
    by (simp add: settleBody_def)
  show "messageArea (settleBody rid (BodyParsed j) s) =
          messageArea s @
            [AiMessage (createMessageBubble (orElse (detail j) ''An unknown error occurred.''))]"
    unfolding eq by (simp add: afterErrorBody_def Let_def displayMessageAi_def dropRequest_def)
  show "conversationHistory (settleBody rid (BodyParsed j) s) =
          conversationHistory s @
            [\<lparr>role = ''assistant'', content = orElse (detail j) ''An unknown error occurred.''\<rparr>]"
    unfolding eq by (simp add: afterErrorBody_def Let_def displayMessageAi_def dropRequest_def)
next
  assume "d \<noteq> []"
  then show "orElse (Some (JString d)) ''An unknown error occurred.'' = JString d"
    by (simp add: orElse_def truthy_def)
next
  show "createMessageBubble (JString d) =
        (if includes_str d fence then InnerHTML (formatMessage d) else InnerText d)"
    by (simp add: createMessageBubble_def)
next
  show "orElse (Some (JOther True json)) ''An unknown error occurred.'' = JOther True json"
    by (simp add: orElse_def truthy_def)
  show "createMessageBubble (JOther True json) = JsonBlock json"
    by (simp add: createMessageBubble_def)
  show "orElse None ''An unknown error occurred.'' = JString ''An unknown error occurred.''"
    by (simp add: orElse_def truthy_def)
  show "orElse (Some (JString [])) ''An unknown error occurred.'' =
     JString ''An unknown error occurred.''"
    by (simp add: orElse_def truthy_def)
next
  assume a: "findRequest rid s = Some r \<and> phase r = AwaitingFetch \<and>
      signal r \<notin> set (abortedSignals s) \<and> \<not> aborted e"
  then have eq: "settleFetch rid (FetchRejected e) s = catchHandler e (dropRequest rid s)"
    by (simp add: settleFetch_def)
  show "messageArea (settleFetch rid (FetchRejected e) s) =
          remove1 LoadingIndicator (messageArea s) @ [AiMessage (createMessageBubble apology)]"
    unfolding eq using a by (simp add: catchHandler_silent dropRequest_def)
  show "conversationHistory (settleFetch rid (FetchRejected e) s) = conversationHistory s"
    by simp
  show "\<not> isProcessing (settleFetch rid (FetchRejected e) s)"
    unfolding eq using idle_after(3) by blast
  show "sendButtonText (settleFetch rid (FetchRejected e) s) = ''Send''"
    unfolding eq using idle_after(3) by blast
next
  assume a: "findRequest rid s = Some r \<and> phase r = AwaitingBody ok \<and> \<not> aborted e"
  then have eq: "settleBody rid (BodyThrows e) s = catchHandler e (dropRequest rid s)"
    by (simp add: settleBody_def)
  show "messageArea (settleBody rid (BodyThrows e) s) =
          remove1 LoadingIndicator (messageArea s) @ [AiMessage (createMessageBubble apology)]"
    unfolding eq using a by (simp add: catchHandler_silent dropRequest_def)
  show "conversationHistory (settleBody rid (BodyThrows e) s) = conversationHistory s"
    unfolding eq by simp
next
  assume a: "findRequest rid s = Some r \<and> phase r = AwaitingFetch \<and> aborted e"
  have eq: "settleFetch rid (FetchRejected e) s = catchHandler e (dropRequest rid s) \<or>
            settleFetch rid (FetchRejected e) s = catchHandler abortError (dropRequest rid s)"
    using a by (simp add: settleFetch_def)
  have ab: "aborted abortError" by (simp add: aborted_def abortError_def)
  show "messageArea (settleFetch rid (FetchRejected e) s) =
          remove1 LoadingIndicator (messageArea s)"
    using eq a ab by (auto simp: catchHandler_silent dropRequest_def)
  show "conversationHistory (settleFetch rid (FetchRejected e) s) = conversationHistory s"
    by simp
  show "containers (settleFetch rid (FetchRejected e) s) = containers s"
    by simp
next
  assume a: "findRequest rid s = Some r \<and> phase r = AwaitingBody ok \<and> aborted e"
  then have eq: "settleBody rid (BodyThrows e) s = catchHandler e (dropRequest rid s)"
    by (simp add: settleBody_def)
  show "messageArea (settleBody rid (BodyThrows e) s) = remove1 LoadingIndicator (messageArea s)"
    unfolding eq using a by (simp add: catchHandler_silent dropRequest_def)
  show "conversationHistory (settleBody rid (BodyThrows e) s) = conversationHistory s"
    unfolding eq by simp
  show "containers (settleBody rid (BodyThrows e) s) = containers s"
    unfolding eq by simp
next
  assume a: "findRequest rid s = Some r \<and> phase r = AwaitingFetch \<and>
      signal r \<in> set (abortedSignals s)"
  then show eq: "settleFetch rid out s = catchHandler abortError (dropRequest rid s)"
    by (simp add: settleFetch_aborted)
  have ab: "aborted abortError" by (simp add: aborted_def abortError_def)
  show "messageArea (settleFetch rid out s) = remove1 LoadingIndicator (messageArea s)"
    unfolding eq using ab by (simp add: catchHandler_silent dropRequest_def)
  show "conversationHistory (settleFetch rid out s) = conversationHistory s"
    unfolding eq by simp
  show "containers (settleFetch rid out s) = containers s"
    unfolding eq by simp
next
  assume "currentAbortController s = Some c"
  then show "c \<in> set (abortedSignals (stopRequest s))"
    by (simp add: stopRequest_fields)
next
  assume "\<not> isProcessing s \<and> sendButtonText s = ''Send'' \<and> sendButtonDataState s = None \<and>
    LoadingIndicator \<notin> set (messageArea s)"
  then show "catchHandler abortError s = s"
    using catchHandler_abort_idle by blast
next
  show "aborted e = (errName e = ''AbortError'' \<or> errCode e = Some 20)"
    by (simp add: aborted_def)
  show "aborted abortError" by (simp add: aborted_def abortError_def)
  show "\<not> aborted (typeError m)" by (simp add: aborted_def typeError_def)
  show "aborted (e\<lparr>errMessage := m'\<rparr>) = aborted e" by (simp add: aborted_def)
  show "catchHandler (e\<lparr>errMessage := m'\<rparr>) s = catchHandler e s"
    by (rule catchHandler_message_independent)
qed

theorem failure_routing_witness:
  "messageArea
     (settleBody 0 (BodyParsed (emptyBody\<lparr>detail := Some (JString ''Table not found'')\<rparr>))
        errorPending) =
     messageArea errorPending @ [AiMessage (InnerText ''Table not found'')] \<and>
   conversationHistory
     (settleBody 0 (BodyParsed (emptyBody\<lparr>detail := Some (JString ''Table not found'')\<rparr>))
        errorPending) =
     conversationHistory errorPending @
       [\<lparr>role = ''assistant'', content = JString ''Table not found''\<rparr>] \<and>
   \<not> aborted (typeError ''Failed to fetch'') \<and>
   messageArea (settleFetch 0 (FetchRejected (typeError ''Failed to fetch'')) fetchPending) =
     remove1 LoadingIndicator (messageArea fetchPending) @
       [AiMessage (createMessageBubble apology)] \<and>
   conversationHistory (settleFetch 0 (FetchRejected (typeError ''Failed to fetch'')) fetchPending) =
     conversationHistory fetchPending \<and>
   \<not> aborted syntaxError \<and>
   messageArea (settleBody 0 (BodyThrows syntaxError) okPending) =
     remove1 LoadingIndicator (messageArea okPending) @
       [AiMessage (createMessageBubble apology)] \<and>
   aborted abortErrorNamed \<and>
   messageArea (settleFetch 0 (FetchRejected abortErrorNamed) fetchPending) =
     remove1 LoadingIndicator (messageArea fetchPending) \<and>
   messageArea (settleBody 0 (BodyThrows abortErrorNamed) okPending) =
     remove1 LoadingIndicator (messageArea okPending) \<and>
   messageArea (settleFetch 0 (FetchResolved True) (stopRequest fetchPending)) =
     remove1 LoadingIndicator (messageArea (stopRequest fetchPending)) \<and>
   currentAbortController fetchPending = Some 0 \<and>
   0 \<in> set (abortedSignals (stopRequest fetchPending)) \<and>
   catchHandler abortError initWidget = initWidget"
proof -
  let ?j = "emptyBody\<lparr>detail := Some (JString ''Table not found'')\<rparr>"
  have a: "findRequest 0 errorPending = Some (hd (inflight errorPending)) \<and>
      phase (hd (inflight errorPending)) = AwaitingBody False"
    by code_simp
  have a': "detail ?j = Some (JString ''Table not found'') \<and> ''Table not found'' \<noteq> [] \<and>
      \<not> includes_str ''Table not found'' fence"
    by code_simp
  have b: "findRequest 0 fetchPending = Some (hd (inflight fetchPending)) \<and>
      phase (hd (inflight fetchPending)) = AwaitingFetch \<and>
      signal (hd (inflight fetchPending)) \<notin> set (abortedSignals fetchPending) \<and>
      \<not> aborted (typeError ''Failed to fetch'')"
    by code_simp
  have b': "findRequest 0 okPending = Some (hd (inflight okPending)) \<and>
      phase (hd (inflight okPending)) = AwaitingBody True \<and> \<not> aborted syntaxError"
    by code_simp
  have c: "findRequest 0 (stopRequest fetchPending) = Some (hd (inflight fetchPending)) \<and>
      phase (hd (inflight fetchPending)) = AwaitingFetch \<and>
      signal (hd (inflight fetchPending)) \<in> set (abortedSignals (stopRequest fetchPending))"
    by code_simp
  have n: "findRequest 0 fetchPending = Some (hd (inflight fetchPending)) \<and>
      phase (hd (inflight fetchPending)) = AwaitingFetch \<and> aborted abortErrorNamed"
    by code_simp
  have n': "findRequest 0 okPending = Some (hd (inflight okPending)) \<and>
      phase (hd (inflight okPending)) = AwaitingBody True \<and> aborted abortErrorNamed"
    by code_simp
  from a a' failure_routing[where rid = 0 and s = errorPending
      and r = "hd (inflight errorPending)" and j = ?j and d = "''Table not found''"]
  have r1: "messageArea (settleBody 0 (BodyParsed ?j) errorPending) =
     messageArea errorPending @ [AiMessage (InnerText ''Table not found'')] \<and>
   conversationHistory (settleBody 0 (BodyParsed ?j) errorPending) =
     conversationHistory errorPending @
       [\<lparr>role = ''assistant'', content = JString ''Table not found''\<rparr>]"
    by simp
  from b failure_routing[where rid = 0 and s = fetchPending
      and r = "hd (inflight fetchPending)" and e = "typeError ''Failed to fetch''"]
  have r2: "messageArea (settleFetch 0 (FetchRejected (typeError ''Failed to fetch'')) fetchPending) =
     remove1 LoadingIndicator (messageArea fetchPending) @
       [AiMessage (createMessageBubble apology)] \<and>
   conversationHistory (settleFetch 0 (FetchRejected (typeError ''Failed to fetch'')) fetchPending) =
     conversationHistory fetchPending"
    by blast
  from b' failure_routing[where rid = 0 and s = okPending
      and r = "hd (inflight okPending)" and e = syntaxError and ok = True]
  have r3: "messageArea (settleBody 0 (BodyThrows syntaxError) okPending) =
     remove1 LoadingIndicator (messageArea okPending) @
       [AiMessage (createMessageBubble apology)]"
    by blast
  from n failure_routing[where rid = 0 and s = fetchPending
      and r = "hd (inflight fetchPending)" and e = abortErrorNamed]
  have r4: "messageArea (settleFetch 0 (FetchRejected abortErrorNamed) fetchPending) =
     remove1 LoadingIndicator (messageArea fetchPending)"
    by blast
  from n' failure_routing[where rid = 0 and s = okPending
      and r = "hd (inflight okPending)" and e = abortErrorNamed and ok = True]
  have r5: "messageArea (settleBody 0 (BodyThrows abortErrorNamed) okPending) =
     remove1 LoadingIndicator (messageArea okPending)"
    by blast
  from c failure_routing[where rid = 0 and s = "stopRequest fetchPending"
      and r = "hd (inflight fetchPending)" and out = "FetchResolved True"]
  have r6: "messageArea (settleFetch 0 (FetchResolved True) (stopRequest fetchPending)) =
     remove1 LoadingIndicator (messageArea (stopRequest fetchPending))"
    by blast
  have d: "currentAbortController fetchPending = Some 0"
    by code_simp
  with failure_routing[where s = fetchPending and c = 0]
  have r7: "0 \<in> set (abortedSignals (stopRequest fetchPending))"
    by blast
  have i: "\<not> isProcessing initWidget \<and> sendButtonText initWidget = ''Send'' \<and>
      sendButtonDataState initWidget = None \<and> LoadingIndicator \<notin> set (messageArea initWidget)"
    by (simp add: initWidget_def)
  with failure_routing[where s = initWidget]
  have r8: "catchHandler abortError initWidget = initWidget"
    by blast
  from r1 r2 r3 r4 r5 r6 d r7 r8 b b' n show ?thesis by blast
qed

section \<open>Adoption of the server's history\<close>

text \<open>
  Claim C9, as the claim states it, fails.  An ok response that includes an empty
  \<open>conversation_history\<close> leaves the local history in place; and an ok response with a
  history and an \<open>error\<close> leaves the server's sequence followed by one more entry.
\<close>

theorem history_not_always_adopted:
  "\<forall>h.
   conversationHistory
     (step h (BodySettles 0 (BodyParsed
        (emptyBody\<lparr>conversation_history := Some [],
                    question := Some (JString ''Which year?'')\<rparr>)))
        (run h traceAwaitingBody initWidget))
     = [\<lparr>role = ''user'', content = JString ''a''\<rparr>] \<and>
   conversationHistory
     (step h (BodySettles 0 (BodyParsed
        (emptyBody\<lparr>conversation_history := Some [\<lparr>role = ''user'', content = JString ''x''\<rparr>],
                    error := Some (JString ''boom'')\<rparr>)))
        (run h traceAwaitingBody initWidget))
     = [\<lparr>role = ''user'', content = JString ''x''\<rparr>,
        \<lparr>role = ''assistant'',
         content = JString ''An error occurred. Please check the logs.''\<rparr>]"
proof
  fix h :: "string \<Rightarrow> string"
  show "conversationHistory
     (step h (BodySettles 0 (BodyParsed
        (emptyBody\<lparr>conversation_history := Some [],
                    question := Some (JString ''Which year?'')\<rparr>)))
        (run h traceAwaitingBody initWidget))
     = [\<lparr>role = ''user'', content = JString ''a''\<rparr>] \<and>
   conversationHistory
     (step h (BodySettles 0 (BodyParsed
        (emptyBody\<lparr>conversation_history := Some [\<lparr>role = ''user'', content = JString ''x''\<rparr>],
                    error := Some (JString ''boom'')\<rparr>)))
        (run h traceAwaitingBody initWidget))
     = [\<lparr>role = ''user'', content = JString ''x''\<rparr>,
        \<lparr>role = ''assistant'',
         content = JString ''An error occurred. Please check the logs.''\<rparr>]"
    by code_simp
qed

text \<open>
  Claim C9, amended.  For every ok response: when its \<open>conversation_history\<close> is a
  non-empty array the history becomes that sequence, the local one discarded; when it is
  absent or empty the local history stays; and when the result has an \<open>error\<close>, one
  \<open>assistant\<close> turn (\<open>An error occurred. Please check the logs.\<close>) follows.  So a
  non-empty server history with no \<open>error\<close> is adopted verbatim.
\<close>

theorem history_adoption:
  assumes "findRequest rid s = Some r" and "phase r = AwaitingBody True"
  shows "conversationHistory (settleBody rid (BodyParsed j) s) =
           (if nonEmptyArray (conversation_history j) then the (conversation_history j)
            else conversationHistory s) @
           (if truthy (error j)
            then [\<lparr>role = ''assistant'',
                   content = JString ''An error occurred. Please check the logs.''\<rparr>]
            else []) \<and>
         (\<forall>h. conversation_history j = Some h \<and> h \<noteq> [] \<and> \<not> truthy (error j)
            \<longrightarrow> conversationHistory (settleBody rid (BodyParsed j) s) = h)"
proof -
  have eq: "settleBody rid (BodyParsed j) s = afterResultBody r j (dropRequest rid s)"
    using assms by (simp add: settleBody_def)
  have "conversationHistory (afterResultBody r j (dropRequest rid s)) =
           (if nonEmptyArray (conversation_history j) then the (conversation_history j)
            else conversationHistory s) @
           (if truthy (error j)
            then [\<lparr>role = ''assistant'',
                   content = JString ''An error occurred. Please check the logs.''\<rparr>]
            else [])"
    by (simp add: afterResultBody_def Let_def)
  then show ?thesis unfolding eq by (auto simp: nonEmptyArray_def)
qed

theorem history_adoption_witness:
  "findRequest 0 okPending = Some (hd (inflight okPending)) \<and>
   phase (hd (inflight okPending)) = AwaitingBody True \<and>
   conversationHistory
     (settleBody 0 (BodyParsed (emptyBody\<lparr>conversation_history :=
          Some [\<lparr>role = ''user'', content = JString ''a''\<rparr>,
                \<lparr>role = ''assistant'', content = JString ''SELECT 1''\<rparr>],
        data := Some [[(''n'', ''1'')]]\<rparr>)) okPending) =
     [\<lparr>role = ''user'', content = JString ''a''\<rparr>,
      \<lparr>role = ''assistant'', content = JString ''SELECT 1''\<rparr>]"
proof -
  let ?j = "emptyBody\<lparr>conversation_history :=
          Some [\<lparr>role = ''user'', content = JString ''a''\<rparr>,
                \<lparr>role = ''assistant'', content = JString ''SELECT 1''\<rparr>],
        data := Some [[(''n'', ''1'')]]\<rparr>"
  have a: "findRequest 0 okPending = Some (hd (inflight okPending))"
    and b: "phase (hd (inflight okPending)) = AwaitingBody True"
    by code_simp+
  have c: "conversation_history ?j =
      Some [\<lparr>role = ''user'', content = JString ''a''\<rparr>,
            \<lparr>role = ''assistant'', content = JString ''SELECT 1''\<rparr>] \<and>
      [\<lparr>role = ''user'', content = JString ''a''\<rparr>,
       \<lparr>role = ''assistant'', content = JString ''SELECT 1''\<rparr>] \<noteq> [] \<and>
      \<not> truthy (error ?j)"
    by (simp add: emptyBody_def truthy_def)
  from history_adoption[OF a b, of ?j] a b c show ?thesis by blast
qed

section \<open>Insights polling: bound and terminal state\<close>

lemma polling_started:
  assumes "\<not> truthy (error j)" "\<not> truthy (question j)" "nonEmptyArray (data j)"
    "chart j \<noteq> None" "chartsWanted r s" "request_id j = Some rq" "rq \<noteq> []"
  shows "pollsStarted (afterResultBody r j s) = pollsStarted s @ [rq]"
  using assms by (simp add: afterResultBody_def Let_def truthyString_def chartsWanted_def
      split: origin.splits)

lemmas poll_defs = pollOnce_def afterTry_def renderReady_def renderReadyUntilThrow_def
  renderNotice_def showInsights_def Let_def



lemma pollOnce_stop:
  "\<not> snd (pollOnce out ps) \<Longrightarrow>
     stepTimer (fst (pollOnce out ps)) = None \<and>
     (\<exists>ts. ts \<noteq> [] \<and> terminals (fst (pollOnce out ps)) = terminals ps @ ts) \<and>
     (\<not> throwingReady out \<longrightarrow> (\<exists>t. terminals (fst (pollOnce out ps)) = terminals ps @ [t])) \<and>
     statusChecks (fst (pollOnce out ps)) = statusChecks ps + 1 \<and>
     timeouts (fst (pollOnce out ps)) = timeouts ps"
  by (cases out) (auto simp: poll_defs throwingReady_def split: if_splits)

lemma pollOnce_go:
  "snd (pollOnce out ps) \<Longrightarrow>
     stepTimer (fst (pollOnce out ps)) = (if throwingReady out then None else stepTimer ps) \<and>
     (\<exists>ts. terminals (fst (pollOnce out ps)) = terminals ps @ ts) \<and>
     (\<not> throwingReady out \<longrightarrow> terminals (fst (pollOnce out ps)) = terminals ps) \<and>
     statusChecks (fst (pollOnce out ps)) = statusChecks ps + 1 \<and>
     attempts (fst (pollOnce out ps)) = attempts ps + 1 \<and>
     attempts ps + 1 < maxAttempts \<and>
     timeouts (fst (pollOnce out ps)) = timeouts ps @ [1000]"
  by (cases out) (auto simp: poll_defs throwingReady_def split: if_splits)

lemma poll_invariants:
  "stepTimer (poll env ps) = None \<and>
   (\<exists>ts. ts \<noteq> [] \<and> terminals (poll env ps) = terminals ps @ ts) \<and>
   statusChecks ps < statusChecks (poll env ps) \<and>
   statusChecks (poll env ps) + attempts ps \<le> statusChecks ps + max (attempts ps + 1) maxAttempts \<and>
   timeouts (poll env ps) =
     timeouts ps @ replicate (statusChecks (poll env ps) - statusChecks ps - 1) 1000"
proof (induction env ps rule: poll.induct)
  case (1 env ps)
  let ?r = "pollOnce (env (statusChecks ps)) ps"
  show ?case
  proof (cases "snd ?r")
    case False
    then have eq: "poll env ps = fst ?r" by (simp add: Let_def)
    from pollOnce_stop[OF False] show ?thesis unfolding eq by auto
  next
    case True
    then have eq: "poll env ps = poll env (fst ?r)" by (simp add: Let_def)
    note go = pollOnce_go[OF True]
    note ih = "1.IH"[OF refl True]
    from ih go have st: "stepTimer (poll env (fst ?r)) = None" by blast
    from go obtain ts0 where ts0: "terminals (fst ?r) = terminals ps @ ts0" by blast
    from ih obtain ts1 where ts1: "ts1 \<noteq> []"
      "terminals (poll env (fst ?r)) = terminals (fst ?r) @ ts1" by blast
    from ts0 ts1 have t: "\<exists>ts. ts \<noteq> [] \<and> terminals (poll env (fst ?r)) = terminals ps @ ts"
      by simp
    from ih go have lt: "statusChecks ps + 1 < statusChecks (poll env (fst ?r))" by auto
    from ih go have le: "statusChecks (poll env (fst ?r)) + attempts ps + 1
        \<le> statusChecks ps + 1 + max (attempts ps + 2) maxAttempts" by auto
    from ih go have tm: "timeouts (poll env (fst ?r)) =
        (timeouts ps @ [1000]) @
          replicate (statusChecks (poll env (fst ?r)) - (statusChecks ps + 1) - 1) 1000"
      by auto
    have "[1000] @ replicate (statusChecks (poll env (fst ?r)) - (statusChecks ps + 1) - 1) (1000::nat)
          = replicate (statusChecks (poll env (fst ?r)) - statusChecks ps - 1) 1000"
      using lt by (metis (no_types, lifting) Suc_diff_Suc One_nat_def add.commute
          append_Cons append_Nil diff_diff_left less_diff_conv plus_1_eq_Suc replicate_Suc)
    with tm have tm': "timeouts (poll env (fst ?r)) =
        timeouts ps @ replicate (statusChecks (poll env (fst ?r)) - statusChecks ps - 1) 1000"
      by simp
    from go have "max (attempts ps + 2) maxAttempts = max (attempts ps + 1) maxAttempts" by auto
    with le have le': "statusChecks (poll env (fst ?r)) + attempts ps
        \<le> statusChecks ps + max (attempts ps + 1) maxAttempts" by linarith
    show ?thesis unfolding eq using st t lt le' tm' by auto
  qed
qed












text \<open>
  Claim C7.  The step timer is started with a period of 900 ms and is cleared at the end
  of every polling run, from any state of the loop: a call of \<open>poll\<close> that does not
  reschedule itself clears it (on \<open>ready\<close>, on \<open>error\<close>, on exhaustion), and a call
  that reschedules leaves it as it is, unless it is one whose \<open>ready\<close> branch threw
  while rendering, which has cleared it already.
\<close>

theorem stepTimer_cleared_on_every_stop:
  "stepTimer startPolling = Some 900 \<and>
   stepTimer (runPoll env) = None \<and>
   stepTimer (poll env ps) = None \<and>
   (\<not> snd (pollOnce out ps) \<longrightarrow> stepTimer (fst (pollOnce out ps)) = None) \<and>
   (snd (pollOnce out ps) \<longrightarrow>
      stepTimer (fst (pollOnce out ps)) = (if throwingReady out then None else stepTimer ps)) \<and>
   stepTimer (renderReady i f ps) = None \<and>
   stepTimer (renderReadyUntilThrow i ps) = None \<and>
   stepTimer (renderNotice ''Insights unavailable.'' ShownUnavailable ps) = None \<and>
   stepTimer (renderNotice ''Insights took too long to generate.'' ShownTookTooLong ps) = None"
  using poll_invariants[of env ps] poll_invariants[of env startPolling]
    pollOnce_stop[of out ps] pollOnce_go[of out ps]
  by (simp add: runPoll_def startPolling_def renderReady_def renderNotice_def
        renderReadyUntilThrow_def showInsights_def)

theorem stepTimer_cleared_on_every_stop_witness:
  "stepTimer (runPoll envThrowsThenReady) = None \<and>
   stepTimer (runPoll envAlwaysThrows) = None \<and>
   stepTimer (runPoll envPendingThenError) = None \<and>
   stepTimer (runPoll envReadyThrowsThenError) = None \<and>
   snd (pollOnce PollThrows startPolling) \<and>
   stepTimer (fst (pollOnce PollThrows startPolling)) = Some 900 \<and>
   snd (pollOnce (envReadyThrowsThenError 0) startPolling) \<and>
   stepTimer (fst (pollOnce (envReadyThrowsThenError 0) startPolling)) = None \<and>
   \<not> snd (pollOnce StatusError startPolling) \<and>
   stepTimer (fst (pollOnce StatusError startPolling)) = None"
proof -
  have a: "snd (pollOnce PollThrows startPolling) \<and> \<not> throwingReady PollThrows"
    by (simp add: poll_defs startPolling_def maxAttempts_def throwingReady_def)
  have b: "\<not> snd (pollOnce StatusError startPolling)"
    by (simp add: pollOnce_def Let_def)
  have c: "snd (pollOnce (envReadyThrowsThenError 0) startPolling) \<and>
      throwingReady (envReadyThrowsThenError 0)"
    by code_simp
  from a stepTimer_cleared_on_every_stop[of envThrowsThenReady startPolling PollThrows]
    stepTimer_cleared_on_every_stop[of envAlwaysThrows startPolling PollThrows]
    stepTimer_cleared_on_every_stop[of envPendingThenError startPolling PollThrows]
    stepTimer_cleared_on_every_stop[of envReadyThrowsThenError startPolling PollThrows]
  have r1: "stepTimer (runPoll envThrowsThenReady) = None \<and>
      stepTimer (runPoll envAlwaysThrows) = None \<and>
      stepTimer (runPoll envPendingThenError) = None \<and>
      stepTimer (runPoll envReadyThrowsThenError) = None \<and>
      stepTimer (fst (pollOnce PollThrows startPolling)) = Some 900"
    by simp
  from b stepTimer_cleared_on_every_stop[of envAlwaysThrows startPolling StatusError]
  have r2: "stepTimer (fst (pollOnce StatusError startPolling)) = None"
    by blast
  from c stepTimer_cleared_on_every_stop[of envAlwaysThrows startPolling
      "envReadyThrowsThenError 0"]
  have r3: "stepTimer (fst (pollOnce (envReadyThrowsThenError 0) startPolling)) = None"
    by simp
  from a b c r1 r2 r3 show ?thesis by blast
qed

end
